theory Spec2Isabelle
  imports Complex_Main
begin

section \<open>Python values and strings\<close>

text \<open>
  The program is Python. Strings are modelled as \<open>string\<close> (lists of 8-bit characters) and
  are read as ASCII text: \<open>str.lower\<close>, \<open>str.strip\<close> and the regular expression classes
  \<open>\w\<close> and \<open>\b\<close> are modelled on the ASCII range. Python floats are modelled as exact
  rationals; \<open>round(x, 2)\<close> is rounding to two decimals, ties to even.
  A Python exception is a value of \<open>py_error\<close>; a function that can raise returns
  \<open>py_error + 'a\<close>.
\<close>

datatype py_error = ValueError | TypeError | FloatNoneComparisonError

datatype pyval = PNone | PInt int | PFloat rat | PStr string

definition dquote :: char where
  "dquote = CHR 0x22"

definition quoted :: "string \<Rightarrow> string" where
  "quoted s = dquote # s @ [dquote]"

definition lower_char :: "char \<Rightarrow> char" where
  "lower_char c =
     (let n = (of_char c :: nat) in if 65 \<le> n \<and> n \<le> 90 then char_of (n + 32) else c)"

definition py_lower :: "string \<Rightarrow> string" where
  "py_lower s = map lower_char s"

definition is_space :: "char \<Rightarrow> bool" where
  "is_space c = (let n = (of_char c :: nat) in (9 \<le> n \<and> n \<le> 13) \<or> (28 \<le> n \<and> n \<le> 32))"

definition is_word_char :: "char \<Rightarrow> bool" where
  "is_word_char c =
     (let n = (of_char c :: nat)
      in (48 \<le> n \<and> n \<le> 57) \<or> (65 \<le> n \<and> n \<le> 90) \<or> n = 95 \<or> (97 \<le> n \<and> n \<le> 122))"

definition strip_chars :: "(char \<Rightarrow> bool) \<Rightarrow> string \<Rightarrow> string" where
  "strip_chars p s = rev (dropWhile p (rev (dropWhile p s)))"

definition py_strip :: "string \<Rightarrow> string" where
  "py_strip s = strip_chars is_space s"

definition strip_dquotes :: "string \<Rightarrow> string" where
  "strip_dquotes s = strip_chars (\<lambda>c. c = dquote) s"

text \<open>\<open>a in b\<close> on strings: \<open>a\<close> occurs in \<open>b\<close> as a contiguous substring.\<close>

fun str_in :: "string \<Rightarrow> string \<Rightarrow> bool" where
  "str_in a [] = (a = [])"
| "str_in a (c # cs) = (take (length a) (c # cs) = a \<or> str_in a cs)"

definition py_round2 :: "rat \<Rightarrow> rat" where
  "py_round2 x =
     (let y = x * 100; f = \<lfloor>y\<rfloor>; d = y - of_int f
      in (if d < 1 / 2 then of_int f
          else if 1 / 2 < d then of_int f + 1
          else if even f then of_int f
          else of_int f + 1) / 100)"

section \<open>Skills: \<open>utils/skill_extract.py\<close>\<close>

subsection \<open>The two regular expressions\<close>

text \<open>
  \<open>quoted_at cs\<close> matches \<open>[^"]+"\<close> on the text after an opening quote: a non-empty run
  of characters other than the quote, then a quote. It returns the run and the text after
  the closing quote.
\<close>

definition quoted_at :: "string \<Rightarrow> (string \<times> string) option" where
  "quoted_at cs =
     (let body = takeWhile (\<lambda>c. c \<noteq> dquote) cs; rest = dropWhile (\<lambda>c. c \<noteq> dquote) cs
      in if body \<noteq> [] \<and> rest \<noteq> [] then Some (body, tl rest) else None)"

text \<open>
  \<open>keyword_at prev_word s\<close> matches \<open>\b(?:and|or|not)\b\<close> with \<open>re.IGNORECASE\<close> at the start
  of \<open>s\<close>, where \<open>prev_word\<close> says whether the character before \<open>s\<close> is a word character.
\<close>

definition keyword_match :: "string \<Rightarrow> string \<Rightarrow> bool" where
  "keyword_match kw s =
     (py_lower (take (length kw) s) = kw \<and>
      (case drop (length kw) s of [] \<Rightarrow> True | c # _ \<Rightarrow> \<not> is_word_char c))"

definition keyword_at :: "bool \<Rightarrow> string \<Rightarrow> (string \<times> string) option" where
  "keyword_at prev_word s =
     (if prev_word then None
      else if keyword_match ''and'' s then Some (take 3 s, drop 3 s)
      else if keyword_match ''or'' s then Some (take 2 s, drop 2 s)
      else if keyword_match ''not'' s then Some (take 3 s, drop 3 s)
      else None)"

lemma quoted_at_length:
  "quoted_at cs = Some (body, rest) \<Longrightarrow> length rest < length cs"
proof -
  assume a: "quoted_at cs = Some (body, rest)"
  let ?d = "dropWhile (\<lambda>c. c \<noteq> dquote) cs"
  from a have ne: "?d \<noteq> []" and r: "rest = tl ?d"
    by (auto simp: quoted_at_def Let_def split: if_splits)
  have "length ?d \<le> length cs" by (rule length_dropWhile_le)
  moreover from ne have "length (tl ?d) < length ?d" by (cases ?d) auto
  ultimately show ?thesis using r by simp
qed

lemma keyword_match_length: "keyword_match kw s \<Longrightarrow> length kw \<le> length s"
proof -
  assume "keyword_match kw s"
  then have "length (py_lower (take (length kw) s)) = length kw"
    by (simp add: keyword_match_def)
  then show ?thesis by (simp add: py_lower_def)
qed

lemma keyword_at_length:
  "keyword_at prev_word s = Some (kw, rest) \<Longrightarrow> length rest < length s"
  by (auto simp: keyword_at_def split: if_splits dest: keyword_match_length)

text \<open>
  \<open>re.findall(r'"[^"]+"|\(|\)|\b(?:and|or|not)\b', s, re.IGNORECASE)\<close>: the matches from left
  to right, each the matched text. The alternatives are tried in the order written; where
  none matches the scan moves on by one character.
\<close>

function skills_findall :: "bool \<Rightarrow> string \<Rightarrow> string list" where
  "skills_findall prev_word [] = []"
| "skills_findall prev_word (c # cs) =
     (if c = dquote \<and> quoted_at cs \<noteq> None then
        (case quoted_at cs of
           Some (body, rest) \<Rightarrow> quoted body # skills_findall False rest
         | None \<Rightarrow> [])
      else if c = CHR ''('' then ''('' # skills_findall False cs
      else if c = CHR '')'' then '')'' # skills_findall False cs
      else (case keyword_at prev_word (c # cs) of
              Some (kw, rest) \<Rightarrow> kw # skills_findall True rest
            | None \<Rightarrow> skills_findall (is_word_char c) cs))"
  by pat_completeness auto
termination
proof (relation "measure (\<lambda>(p, s). length s)")
  show "wf (measure (\<lambda>(p, s). length s))" by simp
next
  fix prev_word c cs x2 x y
  assume "c = dquote \<and> quoted_at cs \<noteq> None" "quoted_at cs = Some x2" "(x, y) = x2"
  then have "quoted_at cs = Some (x, y)" by simp
  from quoted_at_length[OF this]
  show "((False, y), prev_word, c # cs) \<in> measure (\<lambda>(p, s). length s)" by simp
next
  fix prev_word c cs x2 x y
  assume "keyword_at prev_word (c # cs) = Some x2" "(x, y) = x2"
  then have "keyword_at prev_word (c # cs) = Some (x, y)" by simp
  from keyword_at_length[OF this]
  show "((True, y), prev_word, c # cs) \<in> measure (\<lambda>(p, s). length s)" by simp
qed auto

text \<open>\<open>re.findall(r'"([^"]+)"', s)\<close>: the contents of the quoted matches.\<close>

function quoted_findall :: "string \<Rightarrow> string list" where
  "quoted_findall [] = []"
| "quoted_findall (c # cs) =
     (if c = dquote then
        (case quoted_at cs of
           Some (body, rest) \<Rightarrow> body # quoted_findall rest
         | None \<Rightarrow> quoted_findall cs)
      else quoted_findall cs)"
  by pat_completeness auto
termination
proof (relation "measure length")
  show "wf (measure length)" by simp
next
  fix c cs x2 x y
  assume "c = dquote" "quoted_at cs = Some x2" "(x, y) = x2"
  then have "quoted_at cs = Some (x, y)" by simp
  from quoted_at_length[OF this]
  show "(y, c # cs) \<in> measure length" by simp
qed auto

subsection \<open>The evaluator of \<open>evaluate_resume\<close>\<close>

text \<open>
  The tokens after normalisation are plain strings: a quoted token is replaced by its
  content (quotes stripped, trimmed, lowercased), any other token is lowercased.
\<close>

definition normalize_token :: "string \<Rightarrow> string" where
  "normalize_token t =
     (if t \<noteq> [] \<and> hd t = dquote \<and> last t = dquote
      then py_lower (py_strip (strip_dquotes t))
      else py_lower t)"

definition precedence :: "string \<Rightarrow> nat" where
  "precedence t = (if t = ''not'' then 3 else if t = ''and'' then 2 else if t = ''or'' then 1 else 0)"

text \<open>
  The two stacks are Python lists used with \<open>append\<close> and \<open>pop\<close>; here the head of the
  list is the top of the stack. \<open>apply_operator\<close> returns the new operand stack.
\<close>

definition apply_operator :: "string \<Rightarrow> bool list \<Rightarrow> py_error + bool list" where
  "apply_operator op operand_stack =
     (if op = ''not'' then
        (case operand_stack of
           [] \<Rightarrow> Inl ValueError
         | operand # st \<Rightarrow> Inr ((\<not> operand) # st))
      else
        (case operand_stack of
           right # left # st \<Rightarrow>
             if op = ''and'' then Inr ((left \<and> right) # st)
             else if op = ''or'' then Inr ((left \<or> right) # st)
             else Inr st
         | _ \<Rightarrow> Inl ValueError))"

text \<open>
  The inner \<open>while\<close> loops: while the operator stack is not empty, its top \<open>tp\<close> is not \<open>(\<close>
  and \<open>go tp\<close> holds, pop it and apply it.
\<close>

fun unwind :: "(string \<Rightarrow> bool) \<Rightarrow> bool list \<Rightarrow> string list \<Rightarrow> py_error + (bool list \<times> string list)" where
  "unwind go operand_stack [] = Inr (operand_stack, [])"
| "unwind go operand_stack (tp # operator_stack) =
     (if tp \<noteq> ''('' \<and> go tp then
        (case apply_operator tp operand_stack of
           Inl e \<Rightarrow> Inl e
         | Inr st \<Rightarrow> unwind go st operator_stack)
      else Inr (operand_stack, tp # operator_stack))"

text \<open>The loop after the last token: an opening parenthesis left on the stack is an error.\<close>

fun apply_remaining :: "bool list \<Rightarrow> string list \<Rightarrow> py_error + bool list" where
  "apply_remaining operand_stack [] = Inr operand_stack"
| "apply_remaining operand_stack (tp # operator_stack) =
     (if tp = ''('' then Inl ValueError
      else (case apply_operator tp operand_stack of
              Inl e \<Rightarrow> Inl e
            | Inr st \<Rightarrow> apply_remaining st operator_stack))"

fun evaluate_tokens :: "string set \<Rightarrow> string list \<Rightarrow> bool list \<Rightarrow> string list \<Rightarrow> py_error + bool" where
  "evaluate_tokens resume_skills [] operand_stack operator_stack =
     (case apply_remaining operand_stack operator_stack of
        Inl e \<Rightarrow> Inl e
      | Inr [] \<Rightarrow> Inl ValueError
      | Inr (result # _) \<Rightarrow> Inr result)"
| "evaluate_tokens resume_skills (token # tokens) operand_stack operator_stack =
     (if token = ''and'' \<or> token = ''or'' \<or> token = ''not'' then
        (case unwind (\<lambda>tp. precedence token \<le> precedence tp) operand_stack operator_stack of
           Inl e \<Rightarrow> Inl e
         | Inr (st, ops) \<Rightarrow> evaluate_tokens resume_skills tokens st (token # ops))
      else if token = ''('' then
        evaluate_tokens resume_skills tokens operand_stack (token # operator_stack)
      else if token = '')'' then
        (case unwind (\<lambda>tp. True) operand_stack operator_stack of
           Inl e \<Rightarrow> Inl e
         | Inr (st, []) \<Rightarrow> Inl ValueError
         | Inr (st, _ # ops) \<Rightarrow> evaluate_tokens resume_skills tokens st ops)
      else
        evaluate_tokens resume_skills tokens ((token \<in> resume_skills) # operand_stack) operator_stack)"

text \<open>
  \<open>evaluate_resume\<close>. \<open>resume_skills\<close> is a set of strings; every exception raised inside
  the \<open>try\<close> block (the evaluator's \<open>ValueError\<close>) ends in \<open>(False, 0.0)\<close>.
\<close>

definition required_skills_of :: "string \<Rightarrow> string set" where
  "required_skills_of skills_expression =
     set (map (\<lambda>token. py_lower (py_strip (strip_dquotes token)))
            (filter (\<lambda>token. py_strip (strip_dquotes token) \<noteq> []) (quoted_findall skills_expression)))"

definition normalize_skills :: "string set \<Rightarrow> string set" where
  "normalize_skills resume_skills = (\<lambda>skill. py_lower (py_strip skill)) ` {skill \<in> resume_skills. skill \<noteq> []}"

definition match_percentage :: "string set \<Rightarrow> string set \<Rightarrow> rat" where
  "match_percentage required_skills resume_skills =
     (if required_skills \<noteq> {}
      then of_nat (card (required_skills \<inter> resume_skills)) / of_nat (card required_skills) * 100
      else 0)"

definition evaluate_resume :: "string \<Rightarrow> string set \<Rightarrow> bool \<times> rat" where
  "evaluate_resume skills_expression resume_skills =
     (if skills_expression = [] \<or> skills_expression = ''False'' then (False, 0)
      else
        let required_skills = required_skills_of skills_expression;
            resume_skills' = normalize_skills resume_skills;
            skills_tokens = skills_findall False skills_expression
        in if skills_tokens = [] then (False, 0)
           else (case evaluate_tokens resume_skills' (map normalize_token skills_tokens) [] [] of
                   Inl e \<Rightarrow> (False, 0)
                 | Inr result \<Rightarrow>
                     (result, py_round2 (match_percentage required_skills resume_skills'))))"

section \<open>String similarity: \<open>difflib.SequenceMatcher\<close>\<close>

text \<open>
  \<open>similar(a, b)\<close> is \<open>SequenceMatcher(None, a.lower(), b.lower()).ratio()\<close> of the Python
  standard library, called with no junk predicate and with \<open>autojunk\<close> left at its default.
  The library is modelled here by what it computes.

  \<^item> An element of \<open>b\<close> is \<^emph>\<open>popular\<close> when \<open>b\<close> has at least 200 elements and the element
    occurs more than \<open>len(b) // 100 + 1\<close> times; popular elements start no match.
  \<^item> \<open>find_longest_match\<close> returns the longest block \<open>a[i:i+k] == b[j:j+k]\<close> free of popular
    elements, the one with the least \<open>i\<close> and then the least \<open>j\<close> among the longest (the
    library's loops run over \<open>i\<close> and \<open>j\<close> upwards and replace the best block only by a
    strictly longer one), and \<open>(0, 0, 0)\<close> when there is none; the block is then extended to
    the left and to the right over equal elements, popular or not.
  \<^item> \<open>get_matching_blocks\<close> takes that block and goes on with the parts to its left and to
    its right; \<open>ratio\<close> is \<open>2.0 * M / T\<close>, with \<open>M\<close> the total size of the blocks and \<open>T\<close> the
    sum of the two lengths, and \<open>1.0\<close> when \<open>T\<close> is 0.
\<close>

definition popular :: "string \<Rightarrow> char \<Rightarrow> bool" where
  "popular b c = (200 \<le> length b \<and> length b div 100 + 1 < count_list b c)"

fun common_run :: "(char \<Rightarrow> bool) \<Rightarrow> string \<Rightarrow> string \<Rightarrow> nat" where
  "common_run pop (x # xs) (y # ys) = (if x = y \<and> \<not> pop y then Suc (common_run pop xs ys) else 0)"
| "common_run pop [] ys = 0"
| "common_run pop xs [] = 0"

definition longest_run :: "(char \<Rightarrow> bool) \<Rightarrow> string \<Rightarrow> string \<Rightarrow> nat \<times> nat \<times> nat" where
  "longest_run pop a b =
     foldl (\<lambda>(besti, bestj, bestsize) (i, j).
              let k = common_run pop (drop i a) (drop j b)
              in if bestsize < k then (i, j, k) else (besti, bestj, bestsize))
       (0, 0, 0) (List.product [0..<length a] [0..<length b])"

definition find_longest_match :: "(char \<Rightarrow> bool) \<Rightarrow> string \<Rightarrow> string \<Rightarrow> nat \<times> nat \<times> nat" where
  "find_longest_match pop a b =
     (case longest_run pop a b of
        (besti, bestj, bestsize) \<Rightarrow>
          let l = common_run (\<lambda>c. False) (rev (take besti a)) (rev (take bestj b));
              r = common_run (\<lambda>c. False) (drop (besti + bestsize) a) (drop (bestj + bestsize) b)
          in (besti - l, bestj - l, bestsize + l + r))"

lemma longest_run_fold_bound:
  assumes "\<forall>(i, j)\<in>set xs. i < n" "fst acc < n \<or> fst acc = 0"
  shows "fst (foldl (\<lambda>(besti, bestj, bestsize) (i, j).
              let k = common_run pop (drop i a) (drop j b)
              in if bestsize < k then (i, j, k) else (besti, bestj, bestsize)) acc xs) < n
         \<or> fst (foldl (\<lambda>(besti, bestj, bestsize) (i, j).
              let k = common_run pop (drop i a) (drop j b)
              in if bestsize < k then (i, j, k) else (besti, bestj, bestsize)) acc xs) = 0"
  using assms
proof (induction xs arbitrary: acc)
  case Nil
  then show ?case by simp
next
  case (Cons x xs)
  obtain i j where x: "x = (i, j)" by (cases x)
  obtain bi bj bk where acc: "acc = (bi, bj, bk)" by (cases acc)
  from Cons.prems x have i: "i < n" by simp
  show ?case
  proof (cases "bk < common_run pop (drop i a) (drop j b)")
    case True
    have "fst (i, j, common_run pop (drop i a) (drop j b)) < n \<or>
          fst (i, j, common_run pop (drop i a) (drop j b)) = 0" using i by simp
    from Cons.IH[OF _ this] Cons.prems(1) True show ?thesis
      by (simp add: x acc Let_def)
  next
    case False
    from Cons.IH[OF _ Cons.prems(2)] Cons.prems(1) False show ?thesis
      by (simp add: x acc Let_def)
  qed
qed

lemma find_longest_match_bound:
  assumes "find_longest_match pop a b = (i, j, k)" "0 < i"
  shows "i < length a"
proof -
  obtain bi bj bk where r: "longest_run pop a b = (bi, bj, bk)" by (cases "longest_run pop a b")
  have "fst (longest_run pop a b) < length a \<or> fst (longest_run pop a b) = 0"
    unfolding longest_run_def by (rule longest_run_fold_bound) auto
  with r have "bi < length a \<or> bi = 0" by simp
  moreover from assms(1) r have "i \<le> bi" by (auto simp: find_longest_match_def Let_def)
  ultimately show ?thesis using assms(2) by auto
qed

function matching_size :: "(char \<Rightarrow> bool) \<Rightarrow> string \<Rightarrow> string \<Rightarrow> nat" where
  "matching_size pop a b =
     (case find_longest_match pop a b of
        (i, j, k) \<Rightarrow>
          if k = 0 then 0
          else k
            + (if 0 < i \<and> 0 < j then matching_size pop (take i a) (take j b) else 0)
            + (if i + k < length a \<and> j + k < length b
               then matching_size pop (drop (i + k) a) (drop (j + k) b) else 0))"
  by pat_completeness auto
termination
  apply (relation "measure (\<lambda>(pop, a, b). length a)")
    apply simp
   apply (auto dest: find_longest_match_bound[OF sym])
  done

definition ratio :: "string \<Rightarrow> string \<Rightarrow> rat" where
  "ratio a b =
     (if length a + length b \<noteq> 0
      then 2 * of_nat (matching_size (popular b) a b) / of_nat (length a + length b)
      else 1)"

definition similar :: "string \<Rightarrow> string \<Rightarrow> rat" where
  "similar a b = ratio (py_lower a) (py_lower b)"

section \<open>Experience: \<open>utils/exper_test.py\<close>\<close>

subsection \<open>Python numbers\<close>

text \<open>
  \<open>+\<close> and the comparisons on the values the experience data can hold. Adding or comparing
  a number with \<open>None\<close> or a string raises \<open>TypeError\<close>. An \<open>int\<close> plus an \<open>int\<close> is an \<open>int\<close>;
  a sum with a \<open>float\<close> in it is a \<open>float\<close>.
\<close>

fun num_value :: "pyval \<Rightarrow> rat option" where
  "num_value (PInt n) = Some (of_int n)"
| "num_value (PFloat x) = Some x"
| "num_value PNone = None"
| "num_value (PStr s) = None"

fun py_add :: "pyval \<Rightarrow> pyval \<Rightarrow> py_error + pyval" where
  "py_add (PInt m) (PInt n) = Inr (PInt (m + n))"
| "py_add (PInt m) (PFloat y) = Inr (PFloat (of_int m + y))"
| "py_add (PFloat x) (PInt n) = Inr (PFloat (x + of_int n))"
| "py_add (PFloat x) (PFloat y) = Inr (PFloat (x + y))"
| "py_add (PStr s) (PStr t) = Inr (PStr (s @ t))"
| "py_add a b = Inl TypeError"

definition char_less :: "char \<Rightarrow> char \<Rightarrow> bool" where
  "char_less x y = ((of_char x :: nat) < of_char y)"

fun py_less :: "pyval \<Rightarrow> pyval \<Rightarrow> py_error + bool" where
  "py_less (PStr s) (PStr t) = Inr (lexordp char_less s t)"
| "py_less a b =
     (case (num_value a, num_value b) of
        (Some x, Some y) \<Rightarrow> Inr (x < y)
      | _ \<Rightarrow> Inl TypeError)"

definition py_times :: "pyval \<Rightarrow> rat \<Rightarrow> py_error + pyval" where
  "py_times a f = (case num_value a of Some x \<Rightarrow> Inr (PFloat (x * f)) | None \<Rightarrow> Inl TypeError)"

fun is_float :: "pyval \<Rightarrow> bool" where
  "is_float (PFloat x) = True"
| "is_float v = False"

subsection \<open>The data\<close>

text \<open>
  A requirement is the dictionary \<open>jd_exp\<close>, or \<open>None\<close>. Each of its four keys may be
  missing (\<open>None\<close> here); \<open>jd_required\<close> holds the truth value of the entry under
  \<open>"required"\<close>. The dictionary is empty when all four are missing. A resume entry is a
  dictionary with the keys \<open>"years"\<close> and \<open>"field"\<close> (\<open>"title"\<close> is never read);
  \<open>exp_field\<close> is \<open>None\<close> when the key is missing or holds \<open>None\<close>.
\<close>

record jd_experience =
  jd_required :: "bool option"
  jd_min_years :: "pyval option"
  jd_max_years :: "pyval option"
  jd_field_list :: "string list option"

record resume_experience =
  exp_years :: "pyval option"
  exp_field :: "string option"

definition jd_is_empty :: "jd_experience \<Rightarrow> bool" where
  "jd_is_empty jd =
     (jd_required jd = None \<and> jd_min_years jd = None \<and> jd_max_years jd = None \<and> jd_field_list jd = None)"

text \<open>\<open>jd_exp.get("required", False)\<close>, \<open>get("min_years", 0)\<close>, \<open>get("fields", [])\<close>.\<close>

definition get_required :: "jd_experience \<Rightarrow> bool" where
  "get_required jd = (case jd_required jd of None \<Rightarrow> False | Some r \<Rightarrow> r)"

definition get_min_years :: "jd_experience \<Rightarrow> pyval" where
  "get_min_years jd = (case jd_min_years jd of None \<Rightarrow> PInt 0 | Some v \<Rightarrow> v)"

definition get_fields :: "jd_experience \<Rightarrow> string list" where
  "get_fields jd = (case jd_field_list jd of None \<Rightarrow> [] | Some fs \<Rightarrow> fs)"

text \<open>
  \<open>jd_max = jd_exp.get("max_years", float('inf'))\<close>, then \<open>None\<close> is replaced by
  \<open>float('inf')\<close>: here \<open>None\<close> stands for \<open>float('inf')\<close>.
\<close>

definition get_max_years :: "jd_experience \<Rightarrow> pyval option" where
  "get_max_years jd =
     (case jd_max_years jd of None \<Rightarrow> None | Some PNone \<Rightarrow> None | Some v \<Rightarrow> Some v)"

text \<open>\<open>total_exp > jd_max\<close>: nothing exceeds \<open>float('inf')\<close>.\<close>

definition exceeds :: "pyval \<Rightarrow> pyval option \<Rightarrow> py_error + bool" where
  "exceeds total_exp jd_max = (case jd_max of None \<Rightarrow> Inr False | Some m \<Rightarrow> py_less m total_exp)"

text \<open>\<open>sum(exp.get("years", 0) for exp in resume_exp)\<close>, from the \<open>int\<close> 0.\<close>

definition get_years :: "resume_experience \<Rightarrow> pyval" where
  "get_years entry = (case exp_years entry of None \<Rightarrow> PInt 0 | Some v \<Rightarrow> v)"

fun sum_from :: "pyval \<Rightarrow> resume_experience list \<Rightarrow> py_error + pyval" where
  "sum_from acc [] = Inr acc"
| "sum_from acc (entry # rest) =
     (case py_add acc (get_years entry) of
        Inl e \<Rightarrow> Inl e
      | Inr acc' \<Rightarrow> sum_from acc' rest)"

definition total_years :: "resume_experience list \<Rightarrow> py_error + pyval" where
  "total_years resume_exp = sum_from (PInt 0) resume_exp"

subsection \<open>Matching of fields\<close>

definition normalize_field_name :: "string option \<Rightarrow> string" where
  "normalize_field_name field = (case field of None \<Rightarrow> [] | Some f \<Rightarrow> if f = [] then [] else py_lower f)"

definition fields_similar :: "string \<Rightarrow> string \<Rightarrow> bool" where
  "fields_similar field1 field2 = (if field1 = [] \<or> field2 = [] then False else 7 / 10 < similar field1 field2)"

subsection \<open>\<open>evaluate_experience\<close>\<close>

definition field_found :: "bool \<Rightarrow> string \<Rightarrow> resume_experience \<Rightarrow> bool" where
  "field_found use_fuzzy_matching jd_field entry =
     (let res_field = normalize_field_name (exp_field entry)
      in if use_fuzzy_matching then fields_similar jd_field res_field
         else str_in (py_lower jd_field) res_field)"

definition evaluate_experience :: "jd_experience option \<Rightarrow> resume_experience list \<Rightarrow> bool \<Rightarrow> py_error + bool" where
  "evaluate_experience jd_exp resume_exp use_fuzzy_matching =
     (case jd_exp of
        None \<Rightarrow> Inr False
      | Some jd \<Rightarrow>
          if jd_is_empty jd then Inr False
          else if \<not> get_required jd then Inr True
          else if resume_exp = [] then Inr False
          else
            (case total_years resume_exp of
               Inl e \<Rightarrow> Inl e
             | Inr total_exp \<Rightarrow>
                 (case py_less total_exp (get_min_years jd) of
                    Inl e \<Rightarrow> Inl e
                  | Inr True \<Rightarrow> Inr False
                  | Inr False \<Rightarrow>
                      (case exceeds total_exp (get_max_years jd) of
                         Inl e \<Rightarrow> Inl e
                       | Inr True \<Rightarrow> Inr False
                       | Inr False \<Rightarrow>
                           if get_fields jd \<noteq> [] then
                             Inr (list_ex (\<lambda>jd_field.
                                    list_ex (field_found use_fuzzy_matching jd_field) resume_exp)
                                  (get_fields jd))
                           else Inr True))))"

subsection \<open>\<open>score_experience_match\<close>\<close>

text \<open>
  The comparisons inside the \<open>try\<close> block. A \<open>TypeError\<close> whose message names a \<open>float\<close> and
  \<open>NoneType\<close> becomes \<open>FloatNoneComparisonError\<close>: that is the comparison of a \<open>float\<close> total
  with a \<open>None\<close> bound. Any other \<open>TypeError\<close> is raised again as it is.
\<close>

definition compare_error :: "pyval \<Rightarrow> pyval \<Rightarrow> py_error" where
  "compare_error a b =
     (if (is_float a \<and> b = PNone) then FloatNoneComparisonError else TypeError)"

definition years_points :: "pyval \<Rightarrow> pyval \<Rightarrow> pyval option \<Rightarrow> py_error + rat" where
  "years_points total_exp jd_min jd_max =
     (case py_less total_exp jd_min of
        Inl e \<Rightarrow> Inl (compare_error total_exp jd_min)
      | Inr below_min \<Rightarrow>
          (case exceeds total_exp jd_max of
             Inl e \<Rightarrow> Inl (case jd_max of None \<Rightarrow> e | Some m \<Rightarrow> compare_error total_exp m)
           | Inr above_max \<Rightarrow>
               if \<not> below_min \<and> \<not> above_max then Inr 30
               else if above_max then Inr 20
               else (case py_times jd_min (8 / 10) of
                       Inl e \<Rightarrow> Inl e
                     | Inr close \<Rightarrow>
                         (case py_less total_exp close of
                            Inl e \<Rightarrow> Inl e
                          | Inr below_close \<Rightarrow> Inr (if below_close then 0 else 15)))))"

definition field_matched :: "bool \<Rightarrow> string \<Rightarrow> resume_experience \<Rightarrow> bool" where
  "field_matched use_fuzzy_matching jd_field entry =
     (let field = normalize_field_name (exp_field entry)
      in (use_fuzzy_matching \<and> fields_similar jd_field field)
         \<or> str_in (py_lower jd_field) field)"

definition matched_fields :: "bool \<Rightarrow> string list \<Rightarrow> resume_experience list \<Rightarrow> nat" where
  "matched_fields use_fuzzy_matching jd_fields resume_exp =
     length (filter (\<lambda>jd_field. list_ex (field_matched use_fuzzy_matching jd_field) resume_exp) jd_fields)"

definition field_score :: "bool \<Rightarrow> string list \<Rightarrow> resume_experience list \<Rightarrow> rat" where
  "field_score use_fuzzy_matching jd_fields resume_exp =
     (if jd_fields \<noteq> []
      then of_nat (matched_fields use_fuzzy_matching jd_fields resume_exp) / of_nat (length jd_fields) * 70
      else 70)"

definition score_experience_match :: "jd_experience option \<Rightarrow> resume_experience list \<Rightarrow> bool \<Rightarrow> py_error + rat" where
  "score_experience_match jd_exp resume_exp use_fuzzy_matching =
     (case jd_exp of
        None \<Rightarrow> Inr 0
      | Some jd \<Rightarrow>
          if jd_is_empty jd \<or> resume_exp = [] then Inr 0
          else
            (case total_years resume_exp of
               Inl e \<Rightarrow> Inl e
             | Inr total_exp \<Rightarrow>
                 (case years_points total_exp (get_min_years jd) (get_max_years jd) of
                    Inl e \<Rightarrow> Inl e
                  | Inr score \<Rightarrow>
                      Inr (py_round2 (min (score + field_score use_fuzzy_matching (get_fields jd) resume_exp) 100)))))"

section \<open>Education: \<open>utils/education_extract.py\<close> and \<open>app.py\<close>\<close>

subsection \<open>The data\<close>

text \<open>
  A requirement entry is the dictionary of one level: \<open>jd_edu_required\<close> is the truth value
  of \<open>get("required", False)\<close>, \<open>jd_degree\<close> is \<open>None\<close> when the key is missing or holds
  \<open>None\<close>, \<open>jd_cgpa\<close> is \<open>PNone\<close> when the key is missing or holds \<open>None\<close>. The
  requirement \<open>jd_education\<close> maps a level name to its entry. A resume entry has a level,
  a degree and a CGPA, which is any value until \<open>preprocess_resume_data\<close> has parsed it.
\<close>

record jd_education_entry =
  jd_edu_required :: bool
  jd_degree :: "string option"
  jd_cgpa :: pyval

record resume_education =
  edu_level :: string
  edu_degree :: "string option"
  edu_cgpa :: pyval

type_synonym jd_education = "string \<Rightarrow> jd_education_entry option"

definition default_entry :: jd_education_entry where
  "default_entry = \<lparr>jd_edu_required = False, jd_degree = None, jd_cgpa = PNone\<rparr>"

definition get_jd_entry :: "jd_education \<Rightarrow> string \<Rightarrow> jd_education_entry" where
  "get_jd_entry jd_education level = (case jd_education level of None \<Rightarrow> default_entry | Some e \<Rightarrow> e)"

definition degree_rank :: "(string \<times> rat) list" where
  "degree_rank =
     [(''phd'', 4),
      (''mtech'', 3), (''msc'', 3), (''masters'', 3),
      (''btech'', 2), (''bsc'', 2), (''bachelor'', 2),
      (''diploma'', 1),
      (''pu'', 1 / 2), (''12th'', 1 / 2), (''puc'', 1 / 2),
      (''10th'', 2 / 5), (''sslc'', 2 / 5)]"

definition rank_of :: "string \<Rightarrow> rat" where
  "rank_of key = (case map_of degree_rank key of None \<Rightarrow> 0 | Some r \<Rightarrow> r)"

definition normalize_degree_name :: "string option \<Rightarrow> string option" where
  "normalize_degree_name degree =
     (case degree of
        None \<Rightarrow> None
      | Some d \<Rightarrow>
          if d = [] then None
          else find (\<lambda>key. str_in key (py_lower d)) (map fst degree_rank))"

definition EDUCATION_LEVEL_WEIGHTS :: "(string \<times> rat) list" where
  "EDUCATION_LEVEL_WEIGHTS = [(''10th'', 1 / 10), (''PU'', 1 / 5), (''UG'', 1 / 2), (''PG'', 1 / 5)]"

subsection \<open>\<open>parse_cgpa\<close> and \<open>preprocess_resume_data\<close>\<close>

text \<open>
  \<open>float\<close> on a string is Python's; it is the parameter \<open>py_float\<close>, which gives the number
  read or \<open>None\<close> where \<open>float\<close> raises \<open>ValueError\<close>. For a number \<open>x\<close>, \<open>float(str(x))\<close> is
  \<open>x\<close>. The bare \<open>except\<close> turns every exception into \<open>None\<close>.
\<close>

definition falsy :: "pyval \<Rightarrow> bool" where
  "falsy v = (case v of PNone \<Rightarrow> True | PInt n \<Rightarrow> n = 0 | PFloat x \<Rightarrow> x = 0 | PStr s \<Rightarrow> s = [])"

definition parse_cgpa :: "(string \<Rightarrow> rat option) \<Rightarrow> pyval \<Rightarrow> rat option" where
  "parse_cgpa py_float cgpa =
     (if falsy cgpa then None
      else (case cgpa of
              PStr s \<Rightarrow> py_float (filter (\<lambda>c. c \<noteq> CHR ''%'') (py_strip s))
            | PInt n \<Rightarrow> Some (of_int n)
            | PFloat x \<Rightarrow> Some x
            | PNone \<Rightarrow> None))"

definition float_or_none :: "rat option \<Rightarrow> pyval" where
  "float_or_none r = (case r of None \<Rightarrow> PNone | Some x \<Rightarrow> PFloat x)"

definition preprocess_resume_data :: "(string \<Rightarrow> rat option) \<Rightarrow> resume_education list \<Rightarrow> resume_education list" where
  "preprocess_resume_data py_float resume_data =
     map (\<lambda>entry. entry\<lparr>edu_cgpa := float_or_none (parse_cgpa py_float (edu_cgpa entry))\<rparr>) resume_data"

definition get_resume_entry :: "resume_education list \<Rightarrow> string \<Rightarrow> resume_education option" where
  "get_resume_entry resume_list level_name =
     find (\<lambda>entry. py_lower (edu_level entry) = py_lower level_name) resume_list"

subsection \<open>\<open>education_level_match\<close>\<close>

definition degrees_similar :: "string \<Rightarrow> string \<Rightarrow> bool" where
  "degrees_similar degree1 degree2 =
     (if degree1 = [] \<or> degree2 = [] then False else 7 / 10 < similar degree1 degree2)"

text \<open>
  The degree test of the levels \<open>UG\<close> and \<open>PG\<close>, with \<open>USE_FUZZY_MATCHING = True\<close>: \<open>True\<close> when
  the function goes on to the CGPA test, \<open>False\<close> when it returns \<open>False\<close>.
\<close>

definition degree_ok :: "jd_education_entry \<Rightarrow> resume_education \<Rightarrow> bool" where
  "degree_ok jd_entry resume_entry =
     (case (normalize_degree_name (jd_degree jd_entry), normalize_degree_name (edu_degree resume_entry)) of
        (Some jd_key, Some resume_key) \<Rightarrow>
          if rank_of resume_key < rank_of jd_key then False
          else (case (jd_degree jd_entry, edu_degree resume_entry) of
                  (Some jd_d, Some resume_d) \<Rightarrow> jd_d = [] \<or> degrees_similar jd_d resume_d
                | _ \<Rightarrow> True)
      | _ \<Rightarrow> False)"

definition cgpa_ok :: "jd_education_entry \<Rightarrow> resume_education \<Rightarrow> py_error + bool" where
  "cgpa_ok jd_entry resume_entry =
     (if jd_cgpa jd_entry \<noteq> PNone then
        (if edu_cgpa resume_entry = PNone then Inr False
         else (case py_less (edu_cgpa resume_entry) (jd_cgpa jd_entry) of
                 Inl e \<Rightarrow> Inl e
               | Inr below \<Rightarrow> Inr (\<not> below)))
      else Inr True)"

definition education_level_match :: "jd_education_entry \<Rightarrow> resume_education option \<Rightarrow> string \<Rightarrow> py_error + bool" where
  "education_level_match jd_entry resume_entry level =
     (if \<not> jd_edu_required jd_entry then Inr True
      else (case resume_entry of
              None \<Rightarrow> Inr False
            | Some entry \<Rightarrow>
                if (level = ''UG'' \<or> level = ''PG'') \<and> \<not> degree_ok jd_entry entry then Inr False
                else cgpa_ok jd_entry entry))"

subsection \<open>The education result and score of \<open>app.py\<close>\<close>

text \<open>
  \<open>all(education_level_match(...) for level in ["10th", "PU", "UG", "PG"])\<close> stops at the
  first level that does not match; an exception of a level reached ends it.
\<close>

fun all_levels :: "jd_education \<Rightarrow> resume_education list \<Rightarrow> string list \<Rightarrow> py_error + bool" where
  "all_levels jd_education resume_education [] = Inr True"
| "all_levels jd_education resume_education (level # levels) =
     (case education_level_match (get_jd_entry jd_education level)
             (get_resume_entry resume_education level) level of
        Inl e \<Rightarrow> Inl e
      | Inr False \<Rightarrow> Inr False
      | Inr True \<Rightarrow> all_levels jd_education resume_education levels)"

definition education_result :: "jd_education \<Rightarrow> resume_education list \<Rightarrow> py_error + bool" where
  "education_result jd_education resume_education =
     all_levels jd_education resume_education [''10th'', ''PU'', ''UG'', ''PG'']"

text \<open>The loop of \<open>evaluate_education_score\<close> over the weights: \<open>(score, total_weight)\<close>.\<close>

fun weigh_levels :: "jd_education \<Rightarrow> resume_education list \<Rightarrow> (string \<times> rat) list \<Rightarrow> rat \<times> rat
    \<Rightarrow> py_error + rat \<times> rat" where
  "weigh_levels jd_education resume_education [] acc = Inr acc"
| "weigh_levels jd_education resume_education ((level, weight) # rest) (score, total_weight) =
     (case education_level_match (get_jd_entry jd_education level)
             (get_resume_entry resume_education level) level of
        Inl e \<Rightarrow> Inl e
      | Inr matched \<Rightarrow>
          weigh_levels jd_education resume_education rest
            (if matched then score + weight else score, total_weight + weight))"

definition evaluate_education_score :: "(string \<Rightarrow> rat option) \<Rightarrow> jd_education \<Rightarrow> resume_education list \<Rightarrow> rat" where
  "evaluate_education_score py_float jd_education resume_education =
     (case weigh_levels jd_education (preprocess_resume_data py_float resume_education)
             EDUCATION_LEVEL_WEIGHTS (0, 0) of
        Inl e \<Rightarrow> 0
      | Inr (score, total_weight) \<Rightarrow>
          if 0 < total_weight then py_round2 (score / total_weight * 100) else 0)"

section \<open>The analysis of \<open>upload\<close> in \<open>app.py\<close>\<close>

text \<open>
  The part of \<open>upload\<close> from the extracted data to the report. \<open>combine_results\<close> is the
  block under ``Combine results'': \<open>experience_result\<close> is \<open>True\<close> and \<open>experience_score\<close> is
  \<open>None\<close> when the experience was not evaluated.
\<close>

record match_report =
  skills_match :: bool
  skills_score :: rat
  education_match :: bool
  education_score :: rat
  experience_match :: "bool option"
  experience_score :: "rat option"
  overall_result :: string
  overall_score :: rat

definition present_scores :: "rat \<Rightarrow> rat \<Rightarrow> rat option \<Rightarrow> rat list" where
  "present_scores match_count edu_score exp_score =
     match_count # edu_score # (case exp_score of None \<Rightarrow> [] | Some x \<Rightarrow> [x])"

definition combine_results :: "bool \<Rightarrow> rat \<Rightarrow> bool \<Rightarrow> rat \<Rightarrow> bool \<Rightarrow> rat option \<Rightarrow> string \<times> rat" where
  "combine_results skills_result match_count edu_result edu_score exp_result exp_score =
     (let result = (if skills_result \<and> edu_result \<and> exp_result then ''Pass'' else ''Fail'');
          scores = present_scores match_count edu_score exp_score
      in (result, if scores \<noteq> [] then sum_list scores / of_nat (length scores) else 0))"

text \<open>
  The experience step: skipped when the box is not ticked; otherwise \<open>evaluate_experience\<close>
  and then \<open>score_experience_match\<close>, both with fuzzy matching as by default.
\<close>

definition experience_step :: "bool \<Rightarrow> jd_experience option \<Rightarrow> resume_experience list
    \<Rightarrow> py_error + bool \<times> rat option" where
  "experience_step experience_required jd_exp resume_exp =
     (if experience_required then
        (case evaluate_experience jd_exp resume_exp True of
           Inl e \<Rightarrow> Inl e
         | Inr exp_result \<Rightarrow>
             (case score_experience_match jd_exp resume_exp True of
                Inl e \<Rightarrow> Inl e
              | Inr exp_score \<Rightarrow> Inr (exp_result, Some exp_score)))
      else Inr (True, None))"

text \<open>
  \<open>Inl FloatNoneComparisonError\<close> is the answer 400 with the message on missing or invalid
  years; any other error is the answer 500 of the outer \<open>except\<close>.
\<close>

definition upload_analysis :: "(string \<Rightarrow> rat option) \<Rightarrow> string \<Rightarrow> jd_education \<Rightarrow> jd_experience option
    \<Rightarrow> string set \<Rightarrow> resume_education list \<Rightarrow> resume_experience list \<Rightarrow> bool
    \<Rightarrow> py_error + match_report" where
  "upload_analysis py_float skills_expression jd_education jd_exp resume_skills resume_education
       resume_exp experience_required =
     (case evaluate_resume skills_expression resume_skills of
        (skills_result, match_count) \<Rightarrow>
          (case experience_step experience_required jd_exp resume_exp of
             Inl e \<Rightarrow> Inl e
           | Inr (exp_result, exp_score) \<Rightarrow>
               (case education_result jd_education resume_education of
                  Inl e \<Rightarrow> Inl e
                | Inr edu_result \<Rightarrow>
                    let edu_score = evaluate_education_score py_float jd_education resume_education
                    in (case combine_results skills_result match_count edu_result edu_score
                               exp_result exp_score of
                          (result, score) \<Rightarrow>
                            Inr \<lparr>skills_match = skills_result,
                                 skills_score = match_count,
                                 education_match = edu_result,
                                 education_score = edu_score,
                                 experience_match = (if experience_required then Some exp_result else None),
                                 experience_score = (if experience_required then exp_score else None),
                                 overall_result = result,
                                 overall_score = score\<rparr>))))"

section \<open>Sample data\<close>

text \<open>
  Concrete inputs for the examples below. \<open>sample_float\<close> stands for Python's \<open>float\<close> on the
  strings these examples hold.
\<close>

definition sample_float :: "string \<Rightarrow> rat option" where
  "sample_float s = (if s = ''8.5'' then Some (17 / 2) else if s = ''85'' then Some 85 else None)"

definition sample_jd_education :: jd_education where
  "sample_jd_education =
     [''10th'' \<mapsto> \<lparr>jd_edu_required = True, jd_degree = None, jd_cgpa = PFloat 60\<rparr>,
      ''UG'' \<mapsto> \<lparr>jd_edu_required = True, jd_degree = Some ''btech'', jd_cgpa = PFloat 7\<rparr>]"

definition sample_resume_education :: "resume_education list" where
  "sample_resume_education =
     [\<lparr>edu_level = ''10th'', edu_degree = Some ''sslc'', edu_cgpa = PFloat 85\<rparr>,
      \<lparr>edu_level = ''UG'', edu_degree = Some ''btech'', edu_cgpa = PFloat (13 / 2)\<rparr>]"

definition sample_jd_exp :: jd_experience where
  "sample_jd_exp =
     \<lparr>jd_required = Some True, jd_min_years = Some (PInt 2), jd_max_years = Some (PInt 5),
      jd_field_list = Some [''python'']\<rparr>"

definition sample_resume_exp :: "resume_experience list" where
  "sample_resume_exp = [\<lparr>exp_years = Some (PInt 3), exp_field = Some ''python''\<rparr>]"

definition sample_expression :: string where
  "sample_expression = quoted ''Python'' @ '' AND ('' @ quoted ''Java'' @ '' OR '' @ quoted ''Go'' @ '')''"

definition sample_report :: match_report where
  "sample_report =
     \<lparr>skills_match = True, skills_score = 6667 / 100,
      education_match = False, education_score = 50,
      experience_match = None, experience_score = None,
      overall_result = ''Fail'', overall_score = 11667 / 200\<rparr>"

section \<open>The aggregate verdict and score\<close>

definition mean :: "rat list \<Rightarrow> rat" where
  "mean xs = sum_list xs / of_nat (length xs)"

text \<open>
  Claim C7. Whenever the analysis of \<open>upload\<close> produces a report, its overall result is
  \<open>Pass\<close> exactly when the skills match, the education matches and the experience either
  matches or was not evaluated; the experience result and score are absent exactly when the
  experience was not evaluated; and the overall score is the unweighted arithmetic mean of
  the scores that are present. With a skills score of 80, an education score of 60 and no
  experience score the overall score is 70.
\<close>

theorem overall_result_and_score:
  assumes "upload_analysis py_float skills_expression jd_education jd_exp resume_skills
             resume_education resume_exp experience_required = Inr r"
  shows "(overall_result r = ''Pass'' \<longleftrightarrow>
            skills_match r \<and> education_match r \<and>
            (experience_match r = Some True \<or> experience_match r = None))
       \<and> (overall_result r = ''Pass'' \<or> overall_result r = ''Fail'')
       \<and> (experience_match r = None \<longleftrightarrow> \<not> experience_required)
       \<and> (experience_score r = None \<longleftrightarrow> \<not> experience_required)
       \<and> overall_score r = mean (skills_score r # education_score r #
                                   (case experience_score r of None \<Rightarrow> [] | Some x \<Rightarrow> [x]))
       \<and> snd (combine_results sk 80 ed 60 True None) = 70"
  using assms
  by (auto simp: upload_analysis_def combine_results_def present_scores_def experience_step_def
        mean_def Let_def
      split: prod.splits sum.splits if_splits option.splits)

theorem overall_result_and_score_witness:
  "upload_analysis sample_float sample_expression sample_jd_education (Some sample_jd_exp)
     {''python'', ''go''} sample_resume_education sample_resume_exp False = Inr sample_report
   \<and> (overall_result sample_report = ''Pass'' \<longleftrightarrow>
            skills_match sample_report \<and> education_match sample_report \<and>
            (experience_match sample_report = Some True \<or> experience_match sample_report = None))
   \<and> overall_score sample_report
        = mean (skills_score sample_report # education_score sample_report #
                (case experience_score sample_report of None \<Rightarrow> [] | Some x \<Rightarrow> [x]))"
proof -
  have h: "upload_analysis sample_float sample_expression sample_jd_education (Some sample_jd_exp)
     {''python'', ''go''} sample_resume_education sample_resume_exp False = Inr sample_report"
    by code_simp
  from overall_result_and_score[OF h, where sk = True and ed = True] h show ?thesis by simp
qed

subsection \<open>The quoted tokens and the required skills\<close>

text \<open>
  A token of the tokenizer is a quoted literal when it starts and ends with the quote (the
  test of \<open>evaluate_resume\<close>); \<open>quoted_literals\<close> are the normalised values of the quoted
  tokens of an expression.
\<close>

definition is_quoted_token :: "string \<Rightarrow> bool" where
  "is_quoted_token t = (t \<noteq> [] \<and> hd t = dquote \<and> last t = dquote)"

definition quoted_literals :: "string \<Rightarrow> string list" where
  "quoted_literals skills_expression =
     map normalize_token (filter is_quoted_token (skills_findall False skills_expression))"

text \<open>
  The score as the specification words it: the required skills are the normalised values
  of all quoted tokens.
\<close>

definition spec_skills_score :: "string \<Rightarrow> string set \<Rightarrow> rat" where
  "spec_skills_score skills_expression candidate_skills =
     (let required = set (quoted_literals skills_expression)
      in py_round2 (if required = {} then 0
                    else of_nat (card (required \<inter> candidate_skills)) / of_nat (card required) * 100))"

lemma lower_char_dquote: "lower_char dquote = dquote"
  by (simp add: lower_char_def dquote_def)

lemma quoted_findall_skip:
  "dquote \<notin> set xs \<Longrightarrow> quoted_findall (xs @ r) = quoted_findall r"
  by (induction xs) auto

lemma keyword_match_no_dquote:
  assumes "keyword_match kw s" "dquote \<notin> set kw"
  shows "dquote \<notin> set (take (length kw) s)"
proof
  assume d: "dquote \<in> set (take (length kw) s)"
  from assms(1) have "map lower_char (take (length kw) s) = kw"
    by (simp add: keyword_match_def py_lower_def)
  then have "set kw = lower_char ` set (take (length kw) s)" by (metis set_map)
  with d have "lower_char dquote \<in> set kw" by blast
  with assms(2) show False by (simp add: lower_char_dquote)
qed

lemma keyword_at_cases:
  assumes "keyword_at p s = Some (kw, rest)"
  obtains k where "k \<in> {''and'', ''or'', ''not''}" "keyword_match k s"
    "kw = take (length k) s" "rest = drop (length k) s"
proof -
  from assms have np: "\<not> p" by (auto simp: keyword_at_def split: if_splits)
  show thesis
  proof (cases "keyword_match ''and'' s")
    case True
    with assms np have "kw = take (length ''and'') s" "rest = drop (length ''and'') s"
      by (auto simp: keyword_at_def eval_nat_numeral)
    with True that[of "''and''"] show thesis by simp
  next
    case na: False
    show thesis
    proof (cases "keyword_match ''or'' s")
      case True
      with assms np na have "kw = take (length ''or'') s" "rest = drop (length ''or'') s"
        by (auto simp: keyword_at_def eval_nat_numeral)
      with True that[of "''or''"] show thesis by simp
    next
      case no: False
      with assms np na have m: "keyword_match ''not'' s"
        and "kw = take (length ''not'') s" "rest = drop (length ''not'') s"
        by (auto simp: keyword_at_def eval_nat_numeral split: if_splits)
      with that[of "''not''"] show thesis by simp
    qed
  qed
qed

lemma keyword_at_split:
  assumes "keyword_at p s = Some (kw, rest)"
  shows "s = kw @ rest \<and> dquote \<notin> set kw \<and> kw \<noteq> [] \<and> hd kw \<noteq> dquote
         \<and> py_lower kw \<in> {''and'', ''or'', ''not''}"
proof -
  from assms obtain k where k: "k \<in> {''and'', ''or'', ''not''}" "keyword_match k s"
    "kw = take (length k) s" "rest = drop (length k) s" by (rule keyword_at_cases)
  from k(1) have d: "dquote \<notin> set k" and kne: "k \<noteq> []" by (auto simp: dquote_def)
  from keyword_match_no_dquote[OF k(2) d] k(3) have n: "dquote \<notin> set kw" by simp
  from keyword_match_length[OF k(2)] kne k(3) have ne: "kw \<noteq> []" by auto
  from n ne have h: "hd kw \<noteq> dquote" by (metis hd_in_set)
  from k(2,3) have "py_lower kw = k" by (simp add: keyword_match_def)
  with k(1,3,4) n ne h show ?thesis by simp
qed

lemma quoted_at_body:
  assumes "quoted_at cs = Some (body, rest)"
  shows "body \<noteq> [] \<and> dquote \<notin> set body"
proof -
  from assms have b: "body = takeWhile (\<lambda>c. c \<noteq> dquote) cs" and ne: "body \<noteq> []"
    by (auto simp: quoted_at_def Let_def split: if_splits)
  from b have "dquote \<notin> set body" by (auto dest: set_takeWhileD)
  with ne show ?thesis by simp
qed

lemma is_quoted_token_quoted: "is_quoted_token (quoted body)"
  by (simp add: is_quoted_token_def quoted_def)

lemma strip_chars_id:
  assumes "\<forall>c\<in>set s. \<not> p c"
  shows "strip_chars p s = s"
proof -
  have d: "\<And>xs. \<forall>c\<in>set xs. \<not> p c \<Longrightarrow> dropWhile p xs = xs"
    by (metis dropWhile_eq_self_iff hd_in_set)
  from assms have "dropWhile p s = s" by (rule d)
  moreover from assms have "dropWhile p (rev s) = rev s" by (intro d) simp
  ultimately show ?thesis by (simp add: strip_chars_def)
qed

lemma strip_dquotes_id:
  "dquote \<notin> set body \<Longrightarrow> strip_dquotes body = body"
  by (auto simp: strip_dquotes_def intro: strip_chars_id)

lemma strip_dquotes_quoted:
  assumes "dquote \<notin> set body" "body \<noteq> []"
  shows "strip_dquotes (quoted body) = body"
proof -
  from assms have h: "hd body \<noteq> dquote" "last body \<noteq> dquote"
    by (metis hd_in_set, metis last_in_set)
  from assms(2) h(1) have 1: "dropWhile (\<lambda>c. c = dquote) (quoted body) = body @ [dquote]"
    by (cases body) (auto simp: quoted_def)
  from assms(2) h(2) have 2: "dropWhile (\<lambda>c. c = dquote) (rev (body @ [dquote])) = rev body"
    by (cases body rule: rev_cases) auto
  have "strip_dquotes (quoted body) = rev (dropWhile (\<lambda>c. c = dquote) (rev (body @ [dquote])))"
    unfolding strip_dquotes_def strip_chars_def 1 ..
  also have "\<dots> = body" unfolding 2 by simp
  finally show ?thesis .
qed

text \<open>
  The two regular expressions find the same quoted literals: the contents of the quoted
  tokens of the tokenizer are the matches of the expression for the required skills.
\<close>

lemma findall_agree:
  "map strip_dquotes (filter is_quoted_token (skills_findall p e)) = quoted_findall e"
proof (induction p e rule: skills_findall.induct)
  case (1 prev_word)
  then show ?case by simp
next
  case (2 prev_word c cs)
  show ?case
  proof (cases "c = dquote \<and> quoted_at cs \<noteq> None")
    case True
    then obtain body rest where q: "quoted_at cs = Some (body, rest)" by auto
    from quoted_at_body[OF q] have b: "body \<noteq> []" "dquote \<notin> set body" by auto
    from "2.IH"(1)[OF True q refl] True q b show ?thesis
      by (simp add: is_quoted_token_quoted strip_dquotes_quoted)
  next
    case False
    note nq = this
    show ?thesis
    proof (cases "c = CHR ''(''")
      case True
      with nq "2.IH"(2)[OF nq True] show ?thesis
        by (auto simp: is_quoted_token_def dquote_def split: option.splits)
    next
      case False
      note np = this
      show ?thesis
      proof (cases "c = CHR '')''")
        case True
        with nq np "2.IH"(3)[OF nq np True] show ?thesis
          by (auto simp: is_quoted_token_def dquote_def split: option.splits)
      next
        case False
        note npp = this
        show ?thesis
        proof (cases "keyword_at prev_word (c # cs)")
          case None
          with nq np npp "2.IH"(4)[OF nq np npp None] show ?thesis
            by (auto split: option.splits)
        next
          case (Some a)
          then obtain kw rest where k: "keyword_at prev_word (c # cs) = Some (kw, rest)"
            by (cases a) auto
          from keyword_at_split[OF k]
          have s: "c # cs = kw @ rest" "dquote \<notin> set kw" "kw \<noteq> []" "hd kw \<noteq> dquote" by auto
          from s have cq: "c \<noteq> dquote" by (cases kw) auto
          have q: "quoted_findall (c # cs) = quoted_findall rest"
            using quoted_findall_skip[OF s(2), of rest] s(1) by simp
          from cq np npp k
          have f: "skills_findall prev_word (c # cs) = kw # skills_findall True rest"
            by simp
          from s(3,4) have nk: "\<not> is_quoted_token kw" by (simp add: is_quoted_token_def)
          show ?thesis
            unfolding f q using nk "2.IH"(5)[OF nq np npp k refl] by simp
        qed
      qed
    qed
  qed
qed

lemma quoted_findall_no_dquote:
  "b \<in> set (quoted_findall e) \<Longrightarrow> dquote \<notin> set b"
proof (induction e arbitrary: b rule: quoted_findall.induct)
  case 1
  then show ?case by simp
next
  case (2 c cs)
  show ?case
  proof (cases "c = dquote")
    case True
    show ?thesis
    proof (cases "quoted_at cs")
      case None
      with True "2.prems" "2.IH"(1)[OF True None] show ?thesis by simp
    next
      case (Some a)
      then obtain body rest where q: "quoted_at cs = Some (body, rest)" by (cases a) auto
      from "2.prems" True q have "b = body \<or> b \<in> set (quoted_findall rest)" by simp
      with quoted_at_body[OF q] "2.IH"(2)[OF True q refl] show ?thesis by auto
    qed
  next
    case False
    with "2.prems" "2.IH"(3)[OF False] show ?thesis by simp
  qed
qed

lemma py_lower_Nil: "py_lower s = [] \<longleftrightarrow> s = []"
  by (simp add: py_lower_def)

lemma required_skills_of_literals:
  "required_skills_of e = {l \<in> set (quoted_literals e). l \<noteq> []}"
proof -
  let ?toks = "skills_findall False e"
  let ?n = "\<lambda>t. py_lower (py_strip (strip_dquotes t))"
  have qf: "quoted_findall e = map strip_dquotes (filter is_quoted_token ?toks)"
    by (simp add: findall_agree)
  have idem: "strip_dquotes (strip_dquotes t) = strip_dquotes t"
    if "t \<in> set ?toks" "is_quoted_token t" for t
  proof -
    from that have "strip_dquotes t \<in> set (quoted_findall e)" unfolding qf by simp
    from quoted_findall_no_dquote[OF this] show ?thesis by (rule strip_dquotes_id)
  qed
  have nt: "normalize_token t = ?n t" if "is_quoted_token t" for t
    using that by (simp add: normalize_token_def is_quoted_token_def)
  have 1: "required_skills_of e = ?n ` {b \<in> set (quoted_findall e). py_strip (strip_dquotes b) \<noteq> []}"
    by (simp add: required_skills_of_def)
  have 2: "{l \<in> set (quoted_literals e). l \<noteq> []}
        = {l. \<exists>t. t \<in> set ?toks \<and> is_quoted_token t \<and> l = ?n t \<and> py_strip (strip_dquotes t) \<noteq> []}"
    by (auto simp: quoted_literals_def nt py_lower_Nil)
  have 3: "?n ` {b \<in> set (quoted_findall e). py_strip (strip_dquotes b) \<noteq> []}
        = {l. \<exists>t. t \<in> set ?toks \<and> is_quoted_token t \<and> l = ?n t \<and> py_strip (strip_dquotes t) \<noteq> []}"
  proof (intro set_eqI iffI)
    fix l
    assume "l \<in> ?n ` {b \<in> set (quoted_findall e). py_strip (strip_dquotes b) \<noteq> []}"
    then obtain t where t: "t \<in> set ?toks" "is_quoted_token t"
      and l: "l = ?n (strip_dquotes t)" and ne: "py_strip (strip_dquotes (strip_dquotes t)) \<noteq> []"
      unfolding qf by auto
    from idem[OF t] l ne t
    show "l \<in> {l. \<exists>t. t \<in> set ?toks \<and> is_quoted_token t \<and> l = ?n t \<and> py_strip (strip_dquotes t) \<noteq> []}"
      by auto
  next
    fix l
    assume "l \<in> {l. \<exists>t. t \<in> set ?toks \<and> is_quoted_token t \<and> l = ?n t \<and> py_strip (strip_dquotes t) \<noteq> []}"
    then obtain t where t: "t \<in> set ?toks" "is_quoted_token t"
      and l: "l = ?n t" and ne: "py_strip (strip_dquotes t) \<noteq> []" by auto
    from t have m: "strip_dquotes t \<in> set (quoted_findall e)" unfolding qf by simp
    from idem[OF t] l ne have "l = ?n (strip_dquotes t)" "py_strip (strip_dquotes (strip_dquotes t)) \<noteq> []"
      by simp_all
    with m show "l \<in> ?n ` {b \<in> set (quoted_findall e). py_strip (strip_dquotes b) \<noteq> []}"
      by blast
  qed
  show ?thesis unfolding 1 2 3 ..
qed

section \<open>The skills score\<close>

text \<open>
  Claim C2, as amended. \<open>evaluate_resume\<close> returns \<open>(False, 0.0)\<close> when the expression is
  empty, is the text \<open>False\<close>, has no token, or the evaluator raises. Otherwise it returns
  the evaluator's boolean and the score
  \<open>|required \<inter> candidate| / |required| * 100\<close> rounded to two decimals (0.0 when
  \<open>required\<close> is empty), where \<open>required\<close> is the set of the non-empty normalised values of
  the quoted tokens of the whole expression and \<open>candidate\<close> is the normalised skill set of
  the candidate. The expression \<open>"Python" AND "Java"\<close> with the skills \<open>{"python"}\<close> gives
  \<open>(False, 50.0)\<close>.
\<close>

theorem evaluate_resume_score:
  "evaluate_resume e S =
     (if e = [] \<or> e = ''False'' \<or> skills_findall False e = [] then (False, 0)
      else (case evaluate_tokens (normalize_skills S) (map normalize_token (skills_findall False e)) [] [] of
              Inl err \<Rightarrow> (False, 0)
            | Inr b \<Rightarrow>
                (b, py_round2
                      (if {l \<in> set (quoted_literals e). l \<noteq> []} = {} then 0
                       else of_nat (card ({l \<in> set (quoted_literals e). l \<noteq> []} \<inter> normalize_skills S))
                            / of_nat (card {l \<in> set (quoted_literals e). l \<noteq> []}) * 100))))
   \<and> evaluate_resume (quoted ''Python'' @ '' AND '' @ quoted ''Java'') {''python''} = (False, 50)"
proof (intro conjI)
  show "evaluate_resume e S =
     (if e = [] \<or> e = ''False'' \<or> skills_findall False e = [] then (False, 0)
      else (case evaluate_tokens (normalize_skills S) (map normalize_token (skills_findall False e)) [] [] of
              Inl err \<Rightarrow> (False, 0)
            | Inr b \<Rightarrow>
                (b, py_round2
                      (if {l \<in> set (quoted_literals e). l \<noteq> []} = {} then 0
                       else of_nat (card ({l \<in> set (quoted_literals e). l \<noteq> []} \<inter> normalize_skills S))
                            / of_nat (card {l \<in> set (quoted_literals e). l \<noteq> []}) * 100))))"
    unfolding evaluate_resume_def Let_def match_percentage_def required_skills_of_literals
    by (auto split: sum.splits)
  show "evaluate_resume (quoted ''Python'' @ '' AND '' @ quoted ''Java'') {''python''} = (False, 50)"
    by code_simp
qed

theorem evaluate_resume_score_witness:
  "evaluate_resume sample_expression {''python'', ''go''} = (True, 6667 / 100)"
proof -
  have r: "(if sample_expression = [] \<or> sample_expression = ''False'' \<or> skills_findall False sample_expression = [] then (False, 0)
      else (case evaluate_tokens (normalize_skills {''python'', ''go''}) (map normalize_token (skills_findall False sample_expression)) [] [] of
              Inl err \<Rightarrow> (False, 0)
            | Inr b \<Rightarrow>
                (b, py_round2
                      (if {l \<in> set (quoted_literals sample_expression). l \<noteq> []} = {} then 0
                       else of_nat (card ({l \<in> set (quoted_literals sample_expression). l \<noteq> []} \<inter> normalize_skills {''python'', ''go''}))
                            / of_nat (card {l \<in> set (quoted_literals sample_expression). l \<noteq> []}) * 100))))
      = (True, 6667 / 100)"
    by code_simp
  show ?thesis
    by (rule trans[OF evaluate_resume_score[THEN conjunct1] r])
qed

text \<open>
  The claim as stated fails on an expression the evaluator rejects, where the score is 0.0
  whatever the literals are, and on a quoted token whose content is blank, which is left
  out of the required skills.
\<close>

theorem skills_score_counterexample:
  "evaluate_resume (quoted ''a'' @ '' and'') {''a''} = (False, 0)
   \<and> spec_skills_score (quoted ''a'' @ '' and'') (normalize_skills {''a''}) = 100
   \<and> evaluate_resume (quoted '' '' @ '' or '' @ quoted ''a'') {''a''} = (True, 100)
   \<and> spec_skills_score (quoted '' '' @ '' or '' @ quoted ''a'') (normalize_skills {''a''}) = 50"
  by code_simp

section \<open>Properties of the experience matcher\<close>

subsection \<open>The experience rules in the words of the specification\<close>

definition years_sum :: "resume_experience list \<Rightarrow> rat" where
  "years_sum resume_exp =
     sum_list (map (\<lambda>entry. case num_value (get_years entry) of Some y \<Rightarrow> y | None \<Rightarrow> 0) resume_exp)"

definition min_bound :: "jd_experience \<Rightarrow> rat" where
  "min_bound jd = (case num_value (get_min_years jd) of Some lo \<Rightarrow> lo | None \<Rightarrow> 0)"

definition max_bound :: "jd_experience \<Rightarrow> rat option" where
  "max_bound jd = (case get_max_years jd of None \<Rightarrow> None | Some m \<Rightarrow> num_value m)"

definition in_range :: "rat \<Rightarrow> jd_experience \<Rightarrow> bool" where
  "in_range t jd = (min_bound jd \<le> t \<and> (case max_bound jd of None \<Rightarrow> True | Some hi \<Rightarrow> t \<le> hi))"

definition above_max :: "rat \<Rightarrow> jd_experience \<Rightarrow> bool" where
  "above_max t jd = (case max_bound jd of None \<Rightarrow> False | Some hi \<Rightarrow> hi < t)"









subsection \<open>Sums and comparisons of numbers\<close>













subsection \<open>Which errors the experience functions raise\<close>

lemma py_add_error: "py_add a b = Inl e \<Longrightarrow> e = TypeError"
  by (cases a; cases b) auto

lemma py_less_error: "py_less a b = Inl e \<Longrightarrow> e = TypeError"
  by (cases a; cases b) (auto split: option.splits)

lemma sum_from_error: "sum_from acc resume_exp = Inl e \<Longrightarrow> e = TypeError"
  by (induction resume_exp arbitrary: acc) (auto split: sum.splits dest: py_add_error)

lemma exceeds_error: "exceeds v m = Inl e \<Longrightarrow> e = TypeError"
  by (auto simp: exceeds_def split: option.splits dest: py_less_error)

lemma evaluate_experience_error:
  "evaluate_experience jd_exp resume_exp fuzzy = Inl e \<Longrightarrow> e = TypeError"
  by (auto simp: evaluate_experience_def total_years_def
      split: option.splits if_splits sum.splits bool.splits
      dest: sum_from_error py_less_error exceeds_error)

subsection \<open>Sample experience data\<close>


definition none_min_jd_exp :: jd_experience where
  "none_min_jd_exp = sample_jd_exp\<lparr>jd_min_years := Some PNone\<rparr>"

definition py_jd_exp :: jd_experience where
  "py_jd_exp = sample_jd_exp\<lparr>jd_field_list := Some [''py'']\<rparr>"

definition none_years_resume :: "resume_experience list" where
  "none_years_resume = [\<lparr>exp_years = Some PNone, exp_field = Some ''python''\<rparr>]"

definition float_years_resume :: "resume_experience list" where
  "float_years_resume = [\<lparr>exp_years = Some (PFloat 3), exp_field = Some ''python''\<rparr>]"

definition developer_resume :: "resume_experience list" where
  "developer_resume = [\<lparr>exp_years = Some (PInt 3), exp_field = Some ''python developer''\<rparr>]"

subsection \<open>Pass or fail\<close>




subsection \<open>The score\<close>




subsection \<open>Missing years\<close>

lemma sum_from_none:
  assumes "list_ex (\<lambda>entry. get_years entry = PNone) resume_exp"
  shows "sum_from acc resume_exp = Inl TypeError"
  using assms
proof (induction resume_exp arbitrary: acc)
  case Nil
  then show ?case by simp
next
  case (Cons entry rest)
  show ?case
  proof (cases "py_add acc (get_years entry)")
    case (Inl e)
    with py_add_error[OF Inl] show ?thesis by simp
  next
    case (Inr v)
    have "get_years entry \<noteq> PNone"
    proof
      assume "get_years entry = PNone"
      with Inr show False by (cases acc) auto
    qed
    with Cons.prems have "list_ex (\<lambda>entry. get_years entry = PNone) rest" by simp
    from Cons.IH[OF this] Inr show ?thesis by simp
  qed
qed

text \<open>
  A record whose years are \<open>None\<close> makes both functions raise a plain \<open>TypeError\<close>, and
  \<open>evaluate_experience\<close> never raises \<open>FloatNoneComparisonError\<close>.
\<close>

lemma none_years_type_error:
  assumes "\<not> jd_is_empty jd" "list_ex (\<lambda>entry. get_years entry = PNone) resume_exp"
  shows "score_experience_match (Some jd) resume_exp fuzzy = Inl TypeError"
    and "get_required jd \<Longrightarrow> evaluate_experience (Some jd) resume_exp fuzzy = Inl TypeError"
proof -
  from assms(2) have ne: "resume_exp \<noteq> []" by auto
  from sum_from_none[OF assms(2)] have t: "total_years resume_exp = Inl TypeError"
    by (simp add: total_years_def)
  from assms(1) ne t show "score_experience_match (Some jd) resume_exp fuzzy = Inl TypeError"
    by (simp add: score_experience_match_def)
  assume "get_required jd"
  with assms(1) ne t show "evaluate_experience (Some jd) resume_exp fuzzy = Inl TypeError"
    by (simp add: evaluate_experience_def)
qed

lemma evaluate_experience_no_float_none:
  "evaluate_experience jd_exp resume_exp fuzzy \<noteq> Inl FloatNoneComparisonError"
  using evaluate_experience_error[of jd_exp resume_exp fuzzy FloatNoneComparisonError] by auto

text \<open>
  Claim C4. The code at the failing inputs: a record whose years are \<open>None\<close> makes
  \<open>evaluate_experience\<close>, \<open>score_experience_match\<close> and the experience step of \<open>upload\<close> raise
  a plain \<open>TypeError\<close>; a minimum that is \<open>None\<close> with a \<open>float\<close> total makes
  \<open>score_experience_match\<close> raise \<open>FloatNoneComparisonError\<close>, but \<open>evaluate_experience\<close>, which
  \<open>upload\<close> calls first, raises a plain \<open>TypeError\<close>.
\<close>

theorem missing_years_error:
  "evaluate_experience (Some sample_jd_exp) none_years_resume True = Inl TypeError
   \<and> score_experience_match (Some sample_jd_exp) none_years_resume True = Inl TypeError
   \<and> experience_step True (Some sample_jd_exp) none_years_resume = Inl TypeError
   \<and> evaluate_experience (Some none_min_jd_exp) float_years_resume True = Inl TypeError
   \<and> score_experience_match (Some none_min_jd_exp) float_years_resume True
       = Inl FloatNoneComparisonError
   \<and> experience_step True (Some none_min_jd_exp) float_years_resume = Inl TypeError"
  by code_simp

subsection \<open>The substring fallback of the score\<close>

text \<open>
  Claim C10. With fuzzy matching, the score counts a required field as matched when it is
  fuzzy-similar to a record's field or, failing that, contained in it as a substring; the
  pass/fail check accepts only the fuzzy similarity. For the required field \<open>py\<close> and one
  record of 3 years in the field \<open>python developer\<close> (similarity at most 0.7, but a
  substring), with years in range, the score counts the field as matched and is 100, and
  the pass/fail check finds no field and returns false.
\<close>

theorem substring_fallback_in_score_only:
  "(field_matched True jd_field entry \<longleftrightarrow>
      fields_similar jd_field (normalize_field_name (exp_field entry))
      \<or> str_in (py_lower jd_field) (normalize_field_name (exp_field entry)))
   \<and> (field_found True jd_field entry \<longleftrightarrow>
        fields_similar jd_field (normalize_field_name (exp_field entry)))
   \<and> similar ''py'' ''python developer'' \<le> 7 / 10
   \<and> str_in ''py'' ''python developer''
   \<and> in_range (years_sum developer_resume) py_jd_exp
   \<and> matched_fields True (get_fields py_jd_exp) developer_resume = 1
   \<and> score_experience_match (Some py_jd_exp) developer_resume True = Inr 100
   \<and> \<not> list_ex (field_found True ''py'') developer_resume
   \<and> evaluate_experience (Some py_jd_exp) developer_resume True = Inr False"
proof (intro conjI)
  show "field_matched True jd_field entry \<longleftrightarrow>
      fields_similar jd_field (normalize_field_name (exp_field entry))
      \<or> str_in (py_lower jd_field) (normalize_field_name (exp_field entry))"
    by (simp add: field_matched_def Let_def)
  show "field_found True jd_field entry \<longleftrightarrow>
        fields_similar jd_field (normalize_field_name (exp_field entry))"
    by (simp add: field_found_def Let_def)
  show "similar ''py'' ''python developer'' \<le> 7 / 10" by code_simp
  show "str_in ''py'' ''python developer''" by code_simp
  show "in_range (years_sum developer_resume) py_jd_exp" by code_simp
  show "matched_fields True (get_fields py_jd_exp) developer_resume = 1" by code_simp
  show "score_experience_match (Some py_jd_exp) developer_resume True = Inr 100" by code_simp
  show "\<not> list_ex (field_found True ''py'') developer_resume" by code_simp
  show "evaluate_experience (Some py_jd_exp) developer_resume True = Inr False" by code_simp
qed

theorem substring_fallback_in_score_only_witness:
  "score_experience_match (Some py_jd_exp) developer_resume True = Inr 100
   \<and> evaluate_experience (Some py_jd_exp) developer_resume True = Inr False"
  using substring_fallback_in_score_only by blast

section \<open>Properties of the education matcher\<close>

definition education_levels :: "string list" where
  "education_levels = [''10th'', ''PU'', ''UG'', ''PG'']"

text \<open>
  A level is satisfied when \<open>education_level_match\<close> returns true for the requirement entry
  and the record of that level; it raises when the comparison of the two CGPA values does.
\<close>

definition level_satisfied :: "jd_education \<Rightarrow> resume_education list \<Rightarrow> string \<Rightarrow> bool" where
  "level_satisfied jd_education resume_education level =
     (education_level_match (get_jd_entry jd_education level)
        (get_resume_entry resume_education level) level = Inr True)"

definition level_raises :: "jd_education \<Rightarrow> resume_education list \<Rightarrow> string \<Rightarrow> bool" where
  "level_raises jd_education resume_education level =
     isl (education_level_match (get_jd_entry jd_education level)
            (get_resume_entry resume_education level) level)"

definition satisfied_weight :: "jd_education \<Rightarrow> resume_education list \<Rightarrow> (string \<times> rat) list \<Rightarrow> rat" where
  "satisfied_weight jd_education resume_education weights =
     sum_list (map (\<lambda>(level, weight). if level_satisfied jd_education resume_education level then weight else 0)
                 weights)"

text \<open>The requirement is well typed when the CGPA of every level is a number or absent.\<close>

definition not_a_string :: "pyval \<Rightarrow> bool" where
  "not_a_string v = (case v of PStr s \<Rightarrow> False | _ \<Rightarrow> True)"

definition numeric_jd_cgpa :: "jd_education \<Rightarrow> bool" where
  "numeric_jd_cgpa jd_education =
     list_all (\<lambda>level. not_a_string (jd_cgpa (get_jd_entry jd_education level))) education_levels"

lemma all_levels_result:
  "all_levels jd recs levels = Inr b \<Longrightarrow> b = (\<forall>level\<in>set levels. level_satisfied jd recs level)"
proof (induction levels)
  case Nil
  then show ?case by simp
next
  case (Cons level levels)
  then show ?case
    by (cases "education_level_match (get_jd_entry jd level) (get_resume_entry recs level) level")
       (auto simp: level_satisfied_def split: bool.splits)
qed

lemma all_levels_no_raise:
  "\<forall>level\<in>set levels. \<not> level_raises jd recs level \<Longrightarrow>
   all_levels jd recs levels = Inr (\<forall>level\<in>set levels. level_satisfied jd recs level)"
proof (induction levels)
  case Nil
  then show ?case by simp
next
  case (Cons level levels)
  then show ?case
    by (cases "education_level_match (get_jd_entry jd level) (get_resume_entry recs level) level")
       (auto simp: level_satisfied_def level_raises_def split: bool.splits)
qed

lemma weigh_levels_result:
  "weigh_levels jd recs ws (s, t) = Inr (s', t') \<Longrightarrow>
   s' = s + satisfied_weight jd recs ws \<and> t' = t + sum_list (map snd ws)"
proof (induction ws arbitrary: s t)
  case Nil
  then show ?case by (simp add: satisfied_weight_def)
next
  case (Cons lw ws)
  obtain level w where lw: "lw = (level, w)" by (cases lw)
  show ?case
  proof (cases "education_level_match (get_jd_entry jd level) (get_resume_entry recs level) level")
    case (Inl e)
    with Cons.prems lw show ?thesis by simp
  next
    case (Inr m)
    with Cons.prems lw
    have "weigh_levels jd recs ws (if m then s + w else s, t + w) = Inr (s', t')" by simp
    from Cons.IH[OF this] Inr lw show ?thesis
      by (auto simp: satisfied_weight_def level_satisfied_def)
  qed
qed

lemma weigh_levels_no_raise:
  "\<forall>(level, w)\<in>set ws. \<not> level_raises jd recs level \<Longrightarrow>
   \<exists>s' t'. weigh_levels jd recs ws (s, t) = Inr (s', t')"
proof (induction ws arbitrary: s t)
  case Nil
  then show ?case by simp
next
  case (Cons lw ws)
  obtain level w where lw: "lw = (level, w)" by (cases lw)
  from Cons.prems lw obtain m where
    m: "education_level_match (get_jd_entry jd level) (get_resume_entry recs level) level = Inr m"
    by (cases "education_level_match (get_jd_entry jd level) (get_resume_entry recs level) level")
       (auto simp: level_raises_def)
  from Cons.prems have "\<forall>(level, w)\<in>set ws. \<not> level_raises jd recs level" by simp
  from Cons.IH[OF this, of "if m then s + w else s" "t + w"] m lw show ?case by simp
qed

lemma satisfied_weight_bounds:
  assumes "\<forall>(level, w)\<in>set ws. 0 \<le> w"
  shows "0 \<le> satisfied_weight jd recs ws \<and> satisfied_weight jd recs ws \<le> sum_list (map snd ws)"
  using assms
proof (induction ws)
  case Nil
  then show ?case by (simp add: satisfied_weight_def)
next
  case (Cons lw ws)
  obtain level w where lw: "lw = (level, w)" by (cases lw)
  from Cons.prems have "\<forall>(level, w)\<in>set ws. 0 \<le> w" by simp
  from Cons.IH[OF this] Cons.prems lw show ?case by (auto simp: satisfied_weight_def)
qed

lemma weights_total: "sum_list (map snd EDUCATION_LEVEL_WEIGHTS) = 1"
  by (simp add: EDUCATION_LEVEL_WEIGHTS_def)

lemma weights_nonneg: "\<forall>(level, w)\<in>set EDUCATION_LEVEL_WEIGHTS. 0 \<le> w"
  by (simp add: EDUCATION_LEVEL_WEIGHTS_def)

lemma weights_levels: "map fst EDUCATION_LEVEL_WEIGHTS = education_levels"
  by (simp add: EDUCATION_LEVEL_WEIGHTS_def education_levels_def)

lemma py_round2_bounds:
  assumes "0 \<le> x" "x \<le> 100"
  shows "0 \<le> py_round2 x \<and> py_round2 x \<le> 100"
proof -
  define y where "y = x * 100"
  define f where "f = \<lfloor>y\<rfloor>"
  define d where "d = y - of_int f"
  from assms have y: "0 \<le> y" "y \<le> 10000" by (simp_all add: y_def)
  then have f: "0 \<le> f" "f \<le> 10000" by (simp_all add: f_def floor_le_iff le_floor_iff)
  have le: "of_int f \<le> y" by (simp add: f_def)
  have up: "f + 1 \<le> 10000" if "d \<noteq> 0"
  proof -
    from that le have "of_int f < y" by (simp add: d_def)
    with y(2) have "of_int f < (10000::rat)" by linarith
    then have "f < 10000" by linarith
    then show ?thesis by simp
  qed
  have scale: "0 \<le> z / 100 \<and> z / 100 \<le> 100" if "0 \<le> z" "z \<le> 10000" for z :: rat
    using that by simp
  have res: "py_round2 x = of_int f / 100 \<or> (d \<noteq> 0 \<and> py_round2 x = (of_int f + 1) / 100)"
    unfolding py_round2_def Let_def y_def[symmetric] f_def[symmetric] d_def[symmetric] by auto
  then show ?thesis
  proof
    assume r: "py_round2 x = of_int f / 100"
    from f have "(0::rat) \<le> of_int f" "of_int f \<le> (10000::rat)" by simp_all
    from scale[OF this] r show ?thesis by simp
  next
    assume r: "d \<noteq> 0 \<and> py_round2 x = (of_int f + 1) / 100"
    with up have "f \<le> 9999" by simp
    then have "of_int f \<le> (9999::rat)" by simp
    moreover from f(1) have "(0::rat) \<le> of_int f" by simp
    ultimately have "(0::rat) \<le> of_int f + 1" "of_int f + 1 \<le> (10000::rat)" by linarith+
    from scale[OF this] r show ?thesis by simp
  qed
qed

lemma py_round2_100: "py_round2 100 = 100"
  by code_simp

lemma not_required_match:
  "\<not> jd_edu_required jd_entry \<Longrightarrow> education_level_match jd_entry resume_entry level = Inr True"
  by (simp add: education_level_match_def)

lemma required_no_record:
  "jd_edu_required jd_entry \<Longrightarrow> education_level_match jd_entry None level = Inr False"
  by (simp add: education_level_match_def)

lemma find_map_option: "find P (map f xs) = map_option f (find (\<lambda>x. P (f x)) xs)"
  by (induction xs) auto

lemma get_resume_entry_preprocess:
  "get_resume_entry (preprocess_resume_data py_float recs) level
     = map_option (\<lambda>entry. entry\<lparr>edu_cgpa := float_or_none (parse_cgpa py_float (edu_cgpa entry))\<rparr>)
         (get_resume_entry recs level)"
  by (simp add: get_resume_entry_def preprocess_resume_data_def find_map_option)

lemma cgpa_ok_parsed:
  assumes "not_a_string (jd_cgpa jd_entry)"
  shows "\<not> isl (cgpa_ok jd_entry (entry\<lparr>edu_cgpa := float_or_none r\<rparr>))"
  using assms
  by (cases "jd_cgpa jd_entry"; cases r) (auto simp: cgpa_ok_def float_or_none_def not_a_string_def)

lemma preprocessed_no_raise:
  assumes "not_a_string (jd_cgpa (get_jd_entry jd level))"
  shows "\<not> level_raises jd (preprocess_resume_data py_float recs) level"
proof (cases "get_resume_entry recs level")
  case None
  then show ?thesis
    by (simp add: level_raises_def get_resume_entry_preprocess education_level_match_def)
next
  case (Some entry)
  with cgpa_ok_parsed[OF assms, where entry = entry and r = "parse_cgpa py_float (edu_cgpa entry)"]
  show ?thesis
    by (simp add: level_raises_def get_resume_entry_preprocess education_level_match_def)
qed

lemma score_of_weights:
  assumes "weigh_levels jd recs EDUCATION_LEVEL_WEIGHTS (0, 0) = Inr (s, t)"
  shows "s = satisfied_weight jd recs EDUCATION_LEVEL_WEIGHTS \<and> t = 1"
  using weigh_levels_result[OF assms] by (simp add: weights_total)

lemma education_score_formula:
  assumes "numeric_jd_cgpa jd"
  shows "evaluate_education_score py_float jd recs
           = py_round2 (satisfied_weight jd (preprocess_resume_data py_float recs) EDUCATION_LEVEL_WEIGHTS
                        / 1 * 100)"
proof -
  let ?recs = "preprocess_resume_data py_float recs"
  from assms have "\<forall>level\<in>set education_levels. \<not> level_raises jd ?recs level"
    using preprocessed_no_raise by (auto simp: numeric_jd_cgpa_def list_all_iff)
  then have "\<forall>level\<in>set (map fst EDUCATION_LEVEL_WEIGHTS). \<not> level_raises jd ?recs level"
    by (simp only: weights_levels)
  then have "\<forall>(level, w)\<in>set EDUCATION_LEVEL_WEIGHTS. \<not> level_raises jd ?recs level" by auto
  from weigh_levels_no_raise[OF this, of 0 0] obtain s t where
    w: "weigh_levels jd ?recs EDUCATION_LEVEL_WEIGHTS (0, 0) = Inr (s, t)" by auto
  from score_of_weights[OF w] w show ?thesis by (simp add: evaluate_education_score_def)
qed

lemma education_score_bounds:
  "0 \<le> evaluate_education_score py_float jd recs \<and> evaluate_education_score py_float jd recs \<le> 100"
proof (cases "weigh_levels jd (preprocess_resume_data py_float recs) EDUCATION_LEVEL_WEIGHTS (0, 0)")
  case (Inl e)
  then show ?thesis by (simp add: evaluate_education_score_def)
next
  case (Inr st)
  obtain s t where st: "st = (s, t)" by (cases st)
  from score_of_weights[OF Inr[unfolded st]]
  have s: "s = satisfied_weight jd (preprocess_resume_data py_float recs) EDUCATION_LEVEL_WEIGHTS" and t: "t = 1"
    by auto
  from satisfied_weight_bounds[OF weights_nonneg, of jd "preprocess_resume_data py_float recs"] s
  have "0 \<le> s" "s \<le> 1" by (simp_all add: weights_total)
  then have "0 \<le> s / 1 * 100" "s / 1 * 100 \<le> 100" by simp_all
  from py_round2_bounds[OF this] Inr st t show ?thesis by (simp add: evaluate_education_score_def)
qed

lemma nothing_required:
  assumes "\<forall>level\<in>set education_levels. \<not> jd_edu_required (get_jd_entry jd level)"
  shows "education_result jd recs = Inr True" and "evaluate_education_score py_float jd recs = 100"
proof -
  have sat: "level_satisfied jd rs level" if "level \<in> set education_levels" for rs level
    using assms that by (simp add: level_satisfied_def not_required_match)
  then have nr: "\<not> level_raises jd rs level" if "level \<in> set education_levels" for rs level
    using that by (simp add: level_raises_def level_satisfied_def)
  from all_levels_no_raise[of education_levels jd recs] nr sat
  show "education_result jd recs = Inr True"
    by (simp add: education_result_def education_levels_def)
  let ?recs = "preprocess_resume_data py_float recs"
  have "\<forall>level\<in>set (map fst EDUCATION_LEVEL_WEIGHTS). \<not> level_raises jd ?recs level"
    using nr[of _ ?recs] by (simp only: weights_levels) blast
  then have "\<forall>(level, w)\<in>set EDUCATION_LEVEL_WEIGHTS. \<not> level_raises jd ?recs level" by auto
  from weigh_levels_no_raise[OF this, of 0 0] obtain s t where
    w: "weigh_levels jd ?recs EDUCATION_LEVEL_WEIGHTS (0, 0) = Inr (s, t)" by auto
  have "satisfied_weight jd ?recs EDUCATION_LEVEL_WEIGHTS = 1"
    using sat[of _ ?recs] by (simp add: satisfied_weight_def EDUCATION_LEVEL_WEIGHTS_def education_levels_def)
  with score_of_weights[OF w] w show "evaluate_education_score py_float jd recs = 100"
    by (simp add: evaluate_education_score_def py_round2_100)
qed

subsection \<open>Sample education data\<close>

definition required_entry :: jd_education_entry where
  "required_entry = \<lparr>jd_edu_required = True, jd_degree = None, jd_cgpa = PFloat 7\<rparr>"

definition optional_entry :: jd_education_entry where
  "optional_entry = \<lparr>jd_edu_required = False, jd_degree = None, jd_cgpa = PFloat 7\<rparr>"



subsection \<open>Levels, match and score\<close>

text \<open>
  Claim C8. A level not marked required is satisfied whatever the record is, also when
  there is none; a required level with no record fails. The education result of \<open>upload\<close>,
  when it is produced, is the conjunction of the four levels, and it is produced when no
  level raises. For a requirement whose CGPA values are numbers or absent, the education
  score is the sum of the weights (0.1, 0.2, 0.5, 0.2; total 1) of the levels satisfied by
  the preprocessed records, divided by the total weight, times 100, rounded to two
  decimals. The score is always between 0 and 100. When no level is marked required the
  result is true and the score is 100.
\<close>

theorem education_match_and_score:
  "(\<not> jd_edu_required jd_entry \<longrightarrow> education_level_match jd_entry resume_entry level = Inr True)
   \<and> (jd_edu_required jd_entry \<longrightarrow> education_level_match jd_entry None level = Inr False)
   \<and> (education_result jd recs = Inr b \<longrightarrow>
        b = (\<forall>lv\<in>set education_levels. level_satisfied jd recs lv))
   \<and> ((\<forall>lv\<in>set education_levels. \<not> level_raises jd recs lv) \<longrightarrow>
        education_result jd recs = Inr (\<forall>lv\<in>set education_levels. level_satisfied jd recs lv))
   \<and> (numeric_jd_cgpa jd \<longrightarrow>
        evaluate_education_score py_float jd recs
          = py_round2 (satisfied_weight jd (preprocess_resume_data py_float recs) EDUCATION_LEVEL_WEIGHTS
                       / sum_list (map snd EDUCATION_LEVEL_WEIGHTS) * 100))
   \<and> map snd EDUCATION_LEVEL_WEIGHTS = [1 / 10, 2 / 10, 5 / 10, 2 / 10]
   \<and> sum_list (map snd EDUCATION_LEVEL_WEIGHTS) = 1
   \<and> 0 \<le> evaluate_education_score py_float jd recs
   \<and> evaluate_education_score py_float jd recs \<le> 100
   \<and> ((\<forall>lv\<in>set education_levels. \<not> jd_edu_required (get_jd_entry jd lv)) \<longrightarrow>
        education_result jd recs = Inr True \<and> evaluate_education_score py_float jd recs = 100)"
proof (intro conjI impI)
  show "education_level_match jd_entry resume_entry level = Inr True" if "\<not> jd_edu_required jd_entry"
    using that by (rule not_required_match)
  show "education_level_match jd_entry None level = Inr False" if "jd_edu_required jd_entry"
    using that by (rule required_no_record)
  show "b = (\<forall>lv\<in>set education_levels. level_satisfied jd recs lv)" if "education_result jd recs = Inr b"
    using that all_levels_result[of jd recs education_levels b]
    by (simp add: education_result_def education_levels_def)
  show "education_result jd recs = Inr (\<forall>lv\<in>set education_levels. level_satisfied jd recs lv)"
    if "\<forall>lv\<in>set education_levels. \<not> level_raises jd recs lv"
    using all_levels_no_raise[OF that] by (simp add: education_result_def education_levels_def)
  show "evaluate_education_score py_float jd recs
          = py_round2 (satisfied_weight jd (preprocess_resume_data py_float recs) EDUCATION_LEVEL_WEIGHTS
                       / sum_list (map snd EDUCATION_LEVEL_WEIGHTS) * 100)" if "numeric_jd_cgpa jd"
    using education_score_formula[OF that] by (simp add: weights_total)
  show "map snd EDUCATION_LEVEL_WEIGHTS = [1 / 10, 2 / 10, 5 / 10, 2 / 10]"
    by (simp add: EDUCATION_LEVEL_WEIGHTS_def)
  show "sum_list (map snd EDUCATION_LEVEL_WEIGHTS) = 1" by (rule weights_total)
  show "0 \<le> evaluate_education_score py_float jd recs"
    and "evaluate_education_score py_float jd recs \<le> 100"
    using education_score_bounds by auto
  show "education_result jd recs = Inr True"
    and "evaluate_education_score py_float jd recs = 100"
    if "\<forall>lv\<in>set education_levels. \<not> jd_edu_required (get_jd_entry jd lv)"
    using nothing_required[OF that] by auto
qed

theorem education_match_and_score_witness:
  "\<not> jd_edu_required optional_entry
   \<and> education_level_match optional_entry None ''UG'' = Inr True
   \<and> jd_edu_required required_entry
   \<and> education_level_match required_entry None ''UG'' = Inr False
   \<and> education_result sample_jd_education sample_resume_education = Inr False
   \<and> False = (\<forall>lv\<in>set education_levels. level_satisfied sample_jd_education sample_resume_education lv)
   \<and> list_all (\<lambda>lv. \<not> level_raises sample_jd_education sample_resume_education lv) education_levels
   \<and> numeric_jd_cgpa sample_jd_education
   \<and> evaluate_education_score sample_float sample_jd_education sample_resume_education
        = py_round2 (satisfied_weight sample_jd_education
                       (preprocess_resume_data sample_float sample_resume_education) EDUCATION_LEVEL_WEIGHTS
                     / sum_list (map snd EDUCATION_LEVEL_WEIGHTS) * 100)
   \<and> evaluate_education_score sample_float sample_jd_education sample_resume_education = 50
   \<and> list_all (\<lambda>lv. \<not> jd_edu_required (get_jd_entry Map.empty lv)) education_levels
   \<and> education_result Map.empty sample_resume_education = Inr True
   \<and> evaluate_education_score sample_float Map.empty sample_resume_education = 100"
proof -
  have h1: "\<not> jd_edu_required optional_entry" by code_simp
  have h2: "jd_edu_required required_entry" by code_simp
  have h3: "education_result sample_jd_education sample_resume_education = Inr False" by code_simp
  have h4: "\<forall>lv\<in>set education_levels. \<not> level_raises sample_jd_education sample_resume_education lv"
    by code_simp
  have h5: "numeric_jd_cgpa sample_jd_education" by code_simp
  have h6: "\<forall>lv\<in>set education_levels. \<not> jd_edu_required (get_jd_entry Map.empty lv)"
    by (simp add: get_jd_entry_def default_entry_def)
  have v: "evaluate_education_score sample_float sample_jd_education sample_resume_education = 50"
    by code_simp
  note t1 = education_match_and_score[where jd_entry = optional_entry and resume_entry = None
      and level = "''UG''" and jd = sample_jd_education and recs = sample_resume_education
      and b = False and py_float = sample_float]
  note t2 = education_match_and_score[where jd_entry = required_entry and resume_entry = None
      and level = "''UG''" and jd = Map.empty and recs = sample_resume_education
      and b = True and py_float = sample_float]
  from t1 h1 have c1: "education_level_match optional_entry None ''UG'' = Inr True" by blast
  from t2 h2 have c2: "education_level_match required_entry None ''UG'' = Inr False" by blast
  from t1 h3 have c3: "False = (\<forall>lv\<in>set education_levels. level_satisfied sample_jd_education sample_resume_education lv)"
    by blast
  from t1 h5 have c5: "evaluate_education_score sample_float sample_jd_education sample_resume_education
        = py_round2 (satisfied_weight sample_jd_education
                       (preprocess_resume_data sample_float sample_resume_education) EDUCATION_LEVEL_WEIGHTS
                     / sum_list (map snd EDUCATION_LEVEL_WEIGHTS) * 100)" by blast
  from t2 h6 have c6: "education_result Map.empty sample_resume_education = Inr True"
    "evaluate_education_score sample_float Map.empty sample_resume_education = 100" by blast+
  from h1 h2 h3 h4 h5 h6 v c1 c2 c3 c5 c6 show ?thesis by (simp only: list_all_iff) blast
qed

subsection \<open>CGPA\<close>











section \<open>The evaluator of the specification\<close>

text \<open>
  The evaluator as the specification words it, on typed tokens: a quoted token is a
  literal whatever its content, and only the parentheses and the keywords outside quotes
  are operators. It is the same two-stack evaluation, with the precedence
  \<open>NOT\<close> (3) over \<open>AND\<close> (2) over \<open>OR\<close> (1).
\<close>

datatype token = TLit string | TOpen | TClose | TAnd | TOr | TNot

definition classify :: "string \<Rightarrow> token" where
  "classify t =
     (if is_quoted_token t then TLit (py_lower (py_strip (strip_dquotes t)))
      else if t = ''('' then TOpen
      else if t = '')'' then TClose
      else if py_lower t = ''and'' then TAnd
      else if py_lower t = ''or'' then TOr
      else if py_lower t = ''not'' then TNot
      else TLit (py_lower t))"

definition spec_tokens :: "string \<Rightarrow> token list" where
  "spec_tokens skills_expression = map classify (skills_findall False skills_expression)"

fun spec_precedence :: "token \<Rightarrow> nat" where
  "spec_precedence TNot = 3"
| "spec_precedence TAnd = 2"
| "spec_precedence TOr = 1"
| "spec_precedence t = 0"

fun spec_apply :: "token \<Rightarrow> bool list \<Rightarrow> py_error + bool list" where
  "spec_apply TNot (operand # st) = Inr ((\<not> operand) # st)"
| "spec_apply TAnd (right # left # st) = Inr ((left \<and> right) # st)"
| "spec_apply TOr (right # left # st) = Inr ((left \<or> right) # st)"
| "spec_apply t st = Inl ValueError"

fun spec_unwind :: "(token \<Rightarrow> bool) \<Rightarrow> bool list \<Rightarrow> token list \<Rightarrow> py_error + (bool list \<times> token list)" where
  "spec_unwind go st [] = Inr (st, [])"
| "spec_unwind go st (tp # ops) =
     (if tp \<noteq> TOpen \<and> go tp then
        (case spec_apply tp st of
           Inl e \<Rightarrow> Inl e
         | Inr st' \<Rightarrow> spec_unwind go st' ops)
      else Inr (st, tp # ops))"

fun spec_remaining :: "bool list \<Rightarrow> token list \<Rightarrow> py_error + bool list" where
  "spec_remaining st [] = Inr st"
| "spec_remaining st (tp # ops) =
     (if tp = TOpen then Inl ValueError
      else (case spec_apply tp st of
              Inl e \<Rightarrow> Inl e
            | Inr st' \<Rightarrow> spec_remaining st' ops))"

fun spec_evaluate :: "string set \<Rightarrow> token list \<Rightarrow> bool list \<Rightarrow> token list \<Rightarrow> py_error + bool" where
  "spec_evaluate skills [] st ops =
     (case spec_remaining st ops of
        Inl e \<Rightarrow> Inl e
      | Inr [] \<Rightarrow> Inl ValueError
      | Inr (result # _) \<Rightarrow> Inr result)"
| "spec_evaluate skills (TLit s # ts) st ops = spec_evaluate skills ts ((s \<in> skills) # st) ops"
| "spec_evaluate skills (TOpen # ts) st ops = spec_evaluate skills ts st (TOpen # ops)"
| "spec_evaluate skills (TClose # ts) st ops =
     (case spec_unwind (\<lambda>tp. True) st ops of
        Inl e \<Rightarrow> Inl e
      | Inr (st', []) \<Rightarrow> Inl ValueError
      | Inr (st', _ # ops') \<Rightarrow> spec_evaluate skills ts st' ops')"
| "spec_evaluate skills (t # ts) st ops =
     (case spec_unwind (\<lambda>tp. spec_precedence t \<le> spec_precedence tp) st ops of
        Inl e \<Rightarrow> Inl e
      | Inr (st', ops') \<Rightarrow> spec_evaluate skills ts st' (t # ops'))"

text \<open>The parentheses of a token list are balanced from depth \<open>d\<close>.\<close>

fun balanced_from :: "nat \<Rightarrow> token list \<Rightarrow> bool" where
  "balanced_from d [] = (d = 0)"
| "balanced_from d (TOpen # ts) = balanced_from (Suc d) ts"
| "balanced_from d (TClose # ts) = (0 < d \<and> balanced_from (d - 1) ts)"
| "balanced_from d (t # ts) = balanced_from d ts"

definition keyword_skill_expression :: string where
  "keyword_skill_expression = quoted ''Python'' @ '' AND '' @ quoted ''OR''"

definition quoted_paren_expression :: string where
  "quoted_paren_expression = ''( '' @ quoted ''a'' @ '' '' @ quoted '')''"

text \<open>
  Claim C1. The code at the failing input \<open>"Python" AND "OR"\<close> with the candidate skills
  \<open>python\<close> and \<open>or\<close>: the tokens are the literal \<open>python\<close>, the operator \<open>AND\<close> and the
  literal \<open>or\<close>, and the evaluation of the specification gives true; \<open>evaluate_resume\<close>
  takes the quoted \<open>or\<close> for the operator, fails and returns \<open>(False, 0.0)\<close>.
\<close>

theorem quoted_keyword_is_operator:
  "spec_tokens keyword_skill_expression = [TLit ''python'', TAnd, TLit ''or'']
   \<and> spec_evaluate (normalize_skills {''python'', ''or''}) (spec_tokens keyword_skill_expression) [] []
       = Inr True
   \<and> map normalize_token (skills_findall False keyword_skill_expression) = [''python'', ''and'', ''or'']
   \<and> evaluate_resume keyword_skill_expression {''python'', ''or''} = (False, 0)"
  by code_simp

text \<open>
  Claim C3. The code at the failing input \<open>( "a" ")"\<close> with the candidate skill \<open>a\<close>: the
  opening parenthesis is never closed, since the closing one stands inside quotes, and the
  evaluation of the specification is an error; \<open>evaluate_resume\<close> takes the quoted \<open>)\<close> for a
  parenthesis and returns \<open>(True, 50.0)\<close>.
\<close>

theorem quoted_parenthesis_closes:
  "spec_tokens quoted_paren_expression = [TOpen, TLit ''a'', TLit '')'']
   \<and> \<not> balanced_from 0 (spec_tokens quoted_paren_expression)
   \<and> spec_evaluate (normalize_skills {''a''}) (spec_tokens quoted_paren_expression) [] []
       = Inl ValueError
   \<and> evaluate_resume quoted_paren_expression {''a''} = (True, 50)"
  by code_simp

subsection \<open>Where the code and the specification agree\<close>

text \<open>
  \<open>show_token\<close> is the string the code holds for a token after normalisation. An
  expression is clean when no quoted literal normalises to a keyword or a parenthesis.
\<close>

fun show_token :: "token \<Rightarrow> string" where
  "show_token (TLit s) = s"
| "show_token TOpen = ''(''"
| "show_token TClose = '')''"
| "show_token TAnd = ''and''"
| "show_token TOr = ''or''"
| "show_token TNot = ''not''"

definition reserved :: "string set" where
  "reserved = {''and'', ''or'', ''not'', ''('', '')''}"

definition clean :: "string \<Rightarrow> bool" where
  "clean skills_expression = list_all (\<lambda>l. l \<notin> reserved) (quoted_literals skills_expression)"

fun stack_op :: "token \<Rightarrow> bool" where
  "stack_op (TLit s) = False"
| "stack_op TClose = False"
| "stack_op t = True"

fun plain_literal :: "token \<Rightarrow> bool" where
  "plain_literal (TLit s) = (s \<notin> reserved)"
| "plain_literal t = True"

lemma apply_operator_spec:
  "stack_op tp \<Longrightarrow> tp \<noteq> TOpen \<Longrightarrow> apply_operator (show_token tp) st = spec_apply tp st"
  by (cases tp; cases st rule: remdups_adj.cases) (auto simp: apply_operator_def)

lemma precedence_spec: "stack_op tp \<Longrightarrow> precedence (show_token tp) = spec_precedence tp"
  by (cases tp) (auto simp: precedence_def)

lemma show_token_open: "stack_op tp \<Longrightarrow> show_token tp = ''('' \<longleftrightarrow> tp = TOpen"
  by (cases tp) auto

lemma unwind_spec:
  assumes "list_all stack_op ops" "\<forall>tp. stack_op tp \<longrightarrow> go (show_token tp) = go' tp"
  shows "unwind go st (map show_token ops)
           = (case spec_unwind go' st ops of
                Inl e \<Rightarrow> Inl e
              | Inr (st', ops') \<Rightarrow> Inr (st', map show_token ops'))"
  using assms(1)
proof (induction ops arbitrary: st)
  case Nil
  then show ?case by simp
next
  case (Cons tp ops)
  from Cons.prems have tp: "stack_op tp" and rest: "list_all stack_op ops" by simp_all
  from assms(2) tp have g: "go (show_token tp) = go' tp" by simp
  show ?case
  proof (cases "tp = TOpen")
    case True
    then show ?thesis by simp
  next
    case no: False
    with tp have o: "show_token tp \<noteq> ''(''" by (simp add: show_token_open)
    show ?thesis
    proof (cases "go' tp")
      case False
      with g have "\<not> go (show_token tp)" by simp
      with False no o show ?thesis by simp
    next
      case True
      with g have gs: "go (show_token tp)" by simp
      from no tp have a: "apply_operator (show_token tp) st = spec_apply tp st"
        by (simp add: apply_operator_spec)
      show ?thesis
      proof (cases "spec_apply tp st")
        case (Inl e)
        with True no o gs a show ?thesis by simp
      next
        case (Inr st')
        with True no o gs a Cons.IH[OF rest, of st'] show ?thesis by simp
      qed
    qed
  qed
qed

lemma spec_unwind_ops:
  "spec_unwind go st ops = Inr (st', ops') \<Longrightarrow> list_all stack_op ops \<Longrightarrow> list_all stack_op ops'"
  by (induction ops arbitrary: st) (auto split: if_splits sum.splits)

lemma apply_remaining_spec:
  "list_all stack_op ops \<Longrightarrow> apply_remaining st (map show_token ops) = spec_remaining st ops"
proof (induction ops arbitrary: st)
  case Nil
  then show ?case by simp
next
  case (Cons tp ops)
  from Cons.prems have tp: "stack_op tp" and rest: "list_all stack_op ops" by simp_all
  show ?case
  proof (cases "tp = TOpen")
    case True
    then show ?thesis by simp
  next
    case False
    with tp have o: "show_token tp \<noteq> ''(''" by (simp add: show_token_open)
    from False tp have a: "apply_operator (show_token tp) st = spec_apply tp st"
      by (simp add: apply_operator_spec)
    from False o a Cons.IH[OF rest] show ?thesis by (simp split: sum.splits)
  qed
qed

lemma evaluate_tokens_spec:
  assumes "list_all plain_literal ts" "list_all stack_op ops"
  shows "evaluate_tokens skills (map show_token ts) st (map show_token ops)
           = spec_evaluate skills ts st ops"
  using assms
proof (induction ts arbitrary: st ops)
  case Nil
  then show ?case by (simp add: apply_remaining_spec)
next
  case (Cons t ts)
  from Cons.prems have pl: "plain_literal t" and rest: "list_all plain_literal ts" by simp_all
  note ops = Cons.prems(2)
  show ?case
  proof (cases t)
    case (TLit s)
    with pl have "s \<noteq> ''and''" "s \<noteq> ''or''" "s \<noteq> ''not''" "s \<noteq> ''(''" "s \<noteq> '')''"
      by (auto simp: reserved_def)
    with TLit Cons.IH[OF rest ops, of "(s \<in> skills) # st"] show ?thesis by simp
  next
    case TOpen
    have "list_all stack_op (TOpen # ops)" using ops by simp
    from Cons.IH[OF rest this, of st] TOpen show ?thesis by simp
  next
    case TClose
    have u: "unwind (\<lambda>tp. True) st (map show_token ops)
           = (case spec_unwind (\<lambda>tp. True) st ops of
                Inl e \<Rightarrow> Inl e
              | Inr (st', ops') \<Rightarrow> Inr (st', map show_token ops'))"
      by (rule unwind_spec[OF ops]) simp
    show ?thesis
    proof (cases "spec_unwind (\<lambda>tp. True) st ops")
      case (Inl e)
      with TClose u show ?thesis by simp
    next
      case (Inr p)
      obtain st' ops' where p: "p = (st', ops')" by (cases p)
      from spec_unwind_ops[OF Inr[unfolded p] ops] have o': "list_all stack_op ops'" .
      show ?thesis
      proof (cases ops')
        case Nil
        with TClose u Inr p show ?thesis by simp
      next
        case (Cons tp ops'')
        with o' have "list_all stack_op ops''" by simp
        from Cons.IH[OF rest this, of st'] TClose u Inr p Cons show ?thesis by simp
      qed
    qed
  next
    case TAnd
    have u: "unwind (\<lambda>tp. precedence ''and'' \<le> precedence tp) st (map show_token ops)
           = (case spec_unwind (\<lambda>tp. spec_precedence TAnd \<le> spec_precedence tp) st ops of
                Inl e \<Rightarrow> Inl e
              | Inr (st', ops') \<Rightarrow> Inr (st', map show_token ops'))"
      by (rule unwind_spec[OF ops]) (simp add: precedence_spec, simp add: precedence_def)
    show ?thesis
    proof (cases "spec_unwind (\<lambda>tp. spec_precedence TAnd \<le> spec_precedence tp) st ops")
      case (Inl e)
      with TAnd u show ?thesis by simp
    next
      case (Inr p)
      obtain st' ops' where p: "p = (st', ops')" by (cases p)
      from spec_unwind_ops[OF Inr[unfolded p] ops] have "list_all stack_op (TAnd # ops')" by simp
      from Cons.IH[OF rest this, of st'] TAnd u Inr p show ?thesis by simp
    qed
  next
    case TOr
    have u: "unwind (\<lambda>tp. precedence ''or'' \<le> precedence tp) st (map show_token ops)
           = (case spec_unwind (\<lambda>tp. spec_precedence TOr \<le> spec_precedence tp) st ops of
                Inl e \<Rightarrow> Inl e
              | Inr (st', ops') \<Rightarrow> Inr (st', map show_token ops'))"
      by (rule unwind_spec[OF ops]) (simp add: precedence_spec, simp add: precedence_def)
    show ?thesis
    proof (cases "spec_unwind (\<lambda>tp. spec_precedence TOr \<le> spec_precedence tp) st ops")
      case (Inl e)
      with TOr u show ?thesis by simp
    next
      case (Inr p)
      obtain st' ops' where p: "p = (st', ops')" by (cases p)
      from spec_unwind_ops[OF Inr[unfolded p] ops] have "list_all stack_op (TOr # ops')" by simp
      from Cons.IH[OF rest this, of st'] TOr u Inr p show ?thesis by simp
    qed
  next
    case TNot
    have u: "unwind (\<lambda>tp. precedence ''not'' \<le> precedence tp) st (map show_token ops)
           = (case spec_unwind (\<lambda>tp. spec_precedence TNot \<le> spec_precedence tp) st ops of
                Inl e \<Rightarrow> Inl e
              | Inr (st', ops') \<Rightarrow> Inr (st', map show_token ops'))"
      by (rule unwind_spec[OF ops]) (simp add: precedence_spec, simp add: precedence_def)
    show ?thesis
    proof (cases "spec_unwind (\<lambda>tp. spec_precedence TNot \<le> spec_precedence tp) st ops")
      case (Inl e)
      with TNot u show ?thesis by simp
    next
      case (Inr p)
      obtain st' ops' where p: "p = (st', ops')" by (cases p)
      from spec_unwind_ops[OF Inr[unfolded p] ops] have "list_all stack_op (TNot # ops')" by simp
      from Cons.IH[OF rest this, of st'] TNot u Inr p show ?thesis by simp
    qed
  qed
qed

lemma token_kinds:
  "t \<in> set (skills_findall p e) \<Longrightarrow>
   is_quoted_token t \<or> t = ''('' \<or> t = '')''
   \<or> (\<not> is_quoted_token t \<and> py_lower t \<in> {''and'', ''or'', ''not''})"
proof (induction p e rule: skills_findall.induct)
  case (1 prev_word)
  then show ?case by simp
next
  case (2 prev_word c cs)
  show ?case
  proof (cases "c = dquote \<and> quoted_at cs \<noteq> None")
    case True
    then obtain body rest where q: "quoted_at cs = Some (body, rest)" by auto
    from "2.prems" True q have "t = quoted body \<or> t \<in> set (skills_findall False rest)" by simp
    with "2.IH"(1)[OF True q refl] show ?thesis by (auto simp: is_quoted_token_quoted)
  next
    case nq: False
    show ?thesis
    proof (cases "c = CHR ''(''")
      case True
      with nq "2.prems" have "t = ''('' \<or> t \<in> set (skills_findall False cs)"
        by (auto simp: dquote_def)
      with "2.IH"(2)[OF nq True] show ?thesis by auto
    next
      case np: False
      show ?thesis
      proof (cases "c = CHR '')''")
        case True
        with nq np "2.prems" have "t = '')'' \<or> t \<in> set (skills_findall False cs)"
          by (auto simp: dquote_def)
        with "2.IH"(3)[OF nq np True] show ?thesis by auto
      next
        case npp: False
        show ?thesis
        proof (cases "keyword_at prev_word (c # cs)")
          case None
          with nq np npp "2.prems" have "t \<in> set (skills_findall (is_word_char c) cs)"
            by (auto split: if_splits)
          with "2.IH"(4)[OF nq np npp None] show ?thesis by simp
        next
          case (Some a)
          then obtain kw rest where k: "keyword_at prev_word (c # cs) = Some (kw, rest)"
            by (cases a) auto
          from keyword_at_split[OF k]
          have s: "c # cs = kw @ rest" "kw \<noteq> []" "hd kw \<noteq> dquote"
            "py_lower kw \<in> {''and'', ''or'', ''not''}" by auto
          from s(1,2,3) have cq: "c \<noteq> dquote" by (cases kw) auto
          from cq np npp k have f: "skills_findall prev_word (c # cs) = kw # skills_findall True rest"
            by simp
          from s(2,3) have nk: "\<not> is_quoted_token kw" by (simp add: is_quoted_token_def)
          from "2.prems" f have "t = kw \<or> t \<in> set (skills_findall True rest)" by simp
          with "2.IH"(5)[OF nq np npp k refl] nk s(4) show ?thesis by auto
        qed
      qed
    qed
  qed
qed

lemma normalize_token_alt:
  "normalize_token t = (if is_quoted_token t then py_lower (py_strip (strip_dquotes t)) else py_lower t)"
  by (simp add: normalize_token_def is_quoted_token_def)

lemma normalize_token_classify:
  assumes "t \<in> set (skills_findall p e)"
  shows "normalize_token t = show_token (classify t)"
proof -
  have np: "\<not> is_quoted_token ''(''" "\<not> is_quoted_token '')''"
    by (simp_all add: is_quoted_token_def dquote_def)
  have lp: "py_lower ''('' = ''(''" "py_lower '')'' = '')''" by code_simp+
  from token_kinds[OF assms] show ?thesis
  proof (elim disjE conjE)
    assume "is_quoted_token t"
    then show ?thesis by (simp add: classify_def normalize_token_alt)
  next
    assume "t = ''(''"
    with np lp show ?thesis by (simp add: classify_def normalize_token_alt)
  next
    assume "t = '')''"
    with np lp show ?thesis by (simp add: classify_def normalize_token_alt)
  next
    assume a: "\<not> is_quoted_token t" "py_lower t \<in> {''and'', ''or'', ''not''}"
    then have "normalize_token t = py_lower t" by (simp add: normalize_token_alt)
    moreover from a(2) have "py_lower t \<noteq> ''(''" "py_lower t \<noteq> '')''" by auto
    then have "t \<noteq> ''(''" "t \<noteq> '')''" using lp by auto
    ultimately show ?thesis using a by (auto simp: classify_def)
  qed
qed

lemma classify_plain:
  assumes "clean e" "t \<in> set (skills_findall False e)"
  shows "plain_literal (classify t)"
proof (cases "is_quoted_token t")
  case True
  with assms(2) have "normalize_token t \<in> set (quoted_literals e)" by (simp add: quoted_literals_def)
  with assms(1) have "normalize_token t \<notin> reserved" by (simp add: clean_def list_all_iff)
  with True show ?thesis by (simp add: classify_def normalize_token_alt)
next
  case False
  with token_kinds[OF assms(2)] show ?thesis by (auto simp: classify_def)
qed

text \<open>
  On a clean expression the evaluation of the code is the evaluation of the
  specification.
\<close>

lemma clean_evaluation:
  assumes "clean e"
  shows "evaluate_tokens skills (map normalize_token (skills_findall False e)) [] []
           = spec_evaluate skills (spec_tokens e) [] []"
proof -
  have "map normalize_token (skills_findall False e) = map show_token (spec_tokens e)"
    by (simp add: spec_tokens_def normalize_token_classify)
  moreover have "list_all plain_literal (spec_tokens e)"
    using classify_plain[OF assms] by (simp add: spec_tokens_def list_all_iff)
  ultimately show ?thesis
    using evaluate_tokens_spec[of "spec_tokens e" "[]" skills "[]"] by simp
qed

subsection \<open>Unbalanced parentheses are an error\<close>

lemma spec_unwind_count:
  "spec_unwind go st ops = Inr (st', ops') \<Longrightarrow> count_list ops' TOpen = count_list ops TOpen"
  by (induction ops arbitrary: st) (auto split: if_splits sum.splits)

lemma spec_unwind_all:
  "spec_unwind (\<lambda>tp. True) st ops = Inr (st', ops') \<Longrightarrow> ops' = [] \<or> hd ops' = TOpen"
  by (induction ops arbitrary: st) (auto split: if_splits sum.splits)

lemma spec_remaining_count:
  "spec_remaining st ops = Inr r \<Longrightarrow> count_list ops TOpen = 0"
  by (induction ops arbitrary: st) (auto split: if_splits sum.splits)

lemma spec_evaluate_balanced:
  "spec_evaluate skills ts st ops = Inr b \<Longrightarrow> balanced_from (count_list ops TOpen) ts"
proof (induction ts arbitrary: st ops)
  case Nil
  then have "\<exists>r. spec_remaining st ops = Inr r" by (auto split: sum.splits list.splits)
  then show ?case by (auto dest: spec_remaining_count)
next
  case (Cons t ts)
  have op_case: "balanced_from (count_list ops TOpen) ts"
    if e: "(case spec_unwind go st ops of
              Inl e \<Rightarrow> Inl e
            | Inr (st', ops') \<Rightarrow> spec_evaluate skills ts st' (t # ops')) = Inr b"
      and t: "t \<noteq> TOpen" for go
  proof -
    from e obtain st' ops' where u: "spec_unwind go st ops = Inr (st', ops')"
      and r: "spec_evaluate skills ts st' (t # ops') = Inr b"
      by (auto split: sum.splits)
    from Cons.IH[OF r] t spec_unwind_count[OF u] show ?thesis by simp
  qed
  show ?case
  proof (cases t)
    case (TLit s)
    with Cons.prems Cons.IH[of "(s \<in> skills) # st" ops] show ?thesis by simp
  next
    case TOpen
    with Cons.prems Cons.IH[of st "TOpen # ops"] show ?thesis by simp
  next
    case TClose
    with Cons.prems obtain st' tp ops' where u: "spec_unwind (\<lambda>tp. True) st ops = Inr (st', tp # ops')"
      and r: "spec_evaluate skills ts st' ops' = Inr b"
      by (auto split: sum.splits list.splits)
    from spec_unwind_all[OF u] have tp: "tp = TOpen" by simp
    from spec_unwind_count[OF u] tp have c: "count_list ops TOpen = Suc (count_list ops' TOpen)" by simp
    from Cons.IH[OF r] c TClose show ?thesis by simp
  next
    case TAnd
    from Cons.prems
    have "(case spec_unwind (\<lambda>tp. spec_precedence TAnd \<le> spec_precedence tp) st ops of
              Inl e \<Rightarrow> Inl e
            | Inr (st', ops') \<Rightarrow> spec_evaluate skills ts st' (TAnd # ops')) = Inr b"
      unfolding TAnd by (simp only: spec_evaluate.simps)
    then have "balanced_from (count_list ops TOpen) ts" by (rule op_case[unfolded TAnd]) simp
    then show ?thesis by (simp add: TAnd)
  next
    case TOr
    from Cons.prems
    have "(case spec_unwind (\<lambda>tp. spec_precedence TOr \<le> spec_precedence tp) st ops of
              Inl e \<Rightarrow> Inl e
            | Inr (st', ops') \<Rightarrow> spec_evaluate skills ts st' (TOr # ops')) = Inr b"
      unfolding TOr by (simp only: spec_evaluate.simps)
    then have "balanced_from (count_list ops TOpen) ts" by (rule op_case[unfolded TOr]) simp
    then show ?thesis by (simp add: TOr)
  next
    case TNot
    from Cons.prems
    have "(case spec_unwind (\<lambda>tp. spec_precedence TNot \<le> spec_precedence tp) st ops of
              Inl e \<Rightarrow> Inl e
            | Inr (st', ops') \<Rightarrow> spec_evaluate skills ts st' (TNot # ops')) = Inr b"
      unfolding TNot by (simp only: spec_evaluate.simps)
    then have "balanced_from (count_list ops TOpen) ts" by (rule op_case[unfolded TNot]) simp
    then show ?thesis by (simp add: TNot)
  qed
qed

lemma spec_apply_error: "spec_apply tp st = Inl e \<Longrightarrow> e = ValueError"
  by (cases "(tp, st)" rule: spec_apply.cases) auto

text \<open>
  On a clean expression the claims C1 and C3 hold: \<open>evaluate_resume\<close> returns the boolean
  of the specification's evaluation, and \<open>(False, 0.0)\<close> when the expression is empty, has
  no token, has unbalanced parentheses or makes the evaluation fail.
\<close>

lemma clean_evaluate_resume:
  assumes "clean e"
  shows "fst (evaluate_resume e S)
           = (e \<noteq> [] \<and> spec_evaluate (normalize_skills S) (spec_tokens e) [] [] = Inr True)"
proof -
  have "skills_findall False ''False'' = []" by code_simp
  then have f: "e = ''False'' \<Longrightarrow> spec_evaluate (normalize_skills S) (spec_tokens e) [] [] \<noteq> Inr True"
    by (simp add: spec_tokens_def)
  have n: "skills_findall False e = [] \<Longrightarrow> spec_evaluate (normalize_skills S) (spec_tokens e) [] [] \<noteq> Inr True"
    by (simp add: spec_tokens_def)
  show ?thesis
    using f n
    by (auto simp: evaluate_resume_def Let_def clean_evaluation[OF assms] split: sum.splits)
qed

lemma clean_malformed:
  assumes "clean e"
    and "e = [] \<or> skills_findall False e = [] \<or> \<not> balanced_from 0 (spec_tokens e)
         \<or> isl (spec_evaluate (normalize_skills S) (spec_tokens e) [] [])"
  shows "evaluate_resume e S = (False, 0)"
proof -
  have "isl (spec_evaluate (normalize_skills S) (spec_tokens e) [] [])"
    if "\<not> balanced_from 0 (spec_tokens e)"
  proof (cases "spec_evaluate (normalize_skills S) (spec_tokens e) [] []")
    case (Inl e)
    then show ?thesis by simp
  next
    case (Inr b)
    from spec_evaluate_balanced[OF Inr] that show ?thesis by simp
  qed
  with assms(2) show ?thesis
    by (auto simp: evaluate_resume_def Let_def clean_evaluation[OF assms(1)] isl_def split: sum.splits)
qed

end
